theory Spec2Isabelle
  imports Main "HOL-Library.Word" "HOL-Library.Signed_Division"
begin

unbundle bit_operations_syntax

section \<open>The ring buffer of libpd (libpd_wrapper/util/ringbuffer.c)\<close>

text \<open>
  A shallow embedding of \<^verbatim>\<open>ringbuffer.c\<close>. The C type \<^verbatim>\<open>int\<close> and \<^verbatim>\<open>int32_t\<close> are
  32-bit two's complement words; \<^verbatim>\<open>+\<close> and \<^verbatim>\<open>-\<close> wrap around (ISO C leaves signed
  overflow undefined; the model takes the wrap-around that the compiled code performs),
  comparisons are signed, and \<^verbatim>\<open>%\<close> truncates towards zero and traps on a zero divisor.
  Memory is modelled as byte lists; an access outside an object is a fault of the model.
  The model is sequential: the atomic builtins are modelled by their effect on the cell
  (the branch of the source for platforms other than Apple's; the other branch performs
  the same loads and stores).
\<close>

subsection \<open>Machine integers and C operators\<close>

type_synonym int32 = "32 word"
type_synonym byte = "8 word"

datatype fault = Div_By_Zero | Div_Overflow | Out_Of_Bounds

text \<open>Sequencing of computations that may fault.\<close>

definition and_then :: "fault + 'a \<Rightarrow> ('a \<Rightarrow> fault + 'b) \<Rightarrow> fault + 'b" where
  "and_then m f = (case m of Inl e \<Rightarrow> Inl e | Inr x \<Rightarrow> f x)"

text \<open>
  C's \<^verbatim>\<open>a % b\<close> on \<^verbatim>\<open>int\<close>: the remainder of the division truncated towards zero
  (it has the sign of \<^verbatim>\<open>a\<close>); a zero divisor and \<^verbatim>\<open>INT_MIN % -1\<close> trap.
\<close>

definition c_mod :: "int32 \<Rightarrow> int32 \<Rightarrow> fault + int32" where
  "c_mod a b =
     (if b = 0 then Inl Div_By_Zero
      else if sint a = - (2 ^ 31) \<and> sint b = - 1 then Inl Div_Overflow
      else Inr (word_of_int (sint a smod sint b)))"

text \<open>
  \<^verbatim>\<open>memcpy(dst + doff, src + soff, n)\<close> on two distinct objects \<open>dst\<close> and \<open>src\<close>.
  The offsets are \<^verbatim>\<open>int\<close> values added to a pointer; the count is an \<^verbatim>\<open>int\<close> converted
  to \<^verbatim>\<open>size_t\<close>, so a negative count is a count larger than any object. Every access
  outside either object is a fault.
\<close>

definition memcpy :: "byte list \<Rightarrow> int \<Rightarrow> byte list \<Rightarrow> int \<Rightarrow> int \<Rightarrow> fault + byte list" where
  "memcpy dst doff src soff n =
     (if n < 0 \<or> doff < 0 \<or> soff < 0
         \<or> int (length dst) < doff + n \<or> int (length src) < soff + n
      then Inl Out_Of_Bounds
      else Inr (take (nat doff) dst @ take (nat n) (drop (nat soff) src)
                @ drop (nat (doff + n)) dst))"

text \<open>
  \<^verbatim>\<open>__sync_fetch_and_or(&cell, v)\<close>: returns the old content of the cell and stores
  \<^verbatim>\<open>cell | v\<close>. The pair is (value returned, new content).
\<close>

definition sync_fetch_and_or :: "int32 \<Rightarrow> int32 \<Rightarrow> int32 \<times> int32" where
  "sync_fetch_and_or cell v = (cell, cell OR v)"

text \<open>
  \<^verbatim>\<open>__sync_val_compare_and_swap(&cell, oldval, newval)\<close>: stores \<^verbatim>\<open>newval\<close> if the cell
  holds \<^verbatim>\<open>oldval\<close>. The result is the new content of the cell (the value returned by
  the builtin is discarded by the callers).
\<close>

definition sync_val_compare_and_swap :: "int32 \<Rightarrow> int32 \<Rightarrow> int32 \<Rightarrow> int32" where
  "sync_val_compare_and_swap cell oldval newval = (if cell = oldval then newval else cell)"

subsection \<open>The control block\<close>

text \<open>
  Modelled from the spec: the declaration of \<^verbatim>\<open>struct ring_buffer\<close> is in
  \<^verbatim>\<open>ringbuffer.h\<close>, which is not among the sources. The fields are the ones that
  \<^verbatim>\<open>ringbuffer.c\<close> accesses: \<^verbatim>\<open>size\<close> (the capacity), \<^verbatim>\<open>buf_ptr\<close> (the storage),
  \<^verbatim>\<open>write_idx\<close> and \<^verbatim>\<open>read_idx\<close> (the two positions). The three integer fields have
  the type of the values that the functions store in them and load from them
  (\<^verbatim>\<open>int size\<close>, \<^verbatim>\<open>int32_t read_idx\<close>, \<^verbatim>\<open>int32_t write_idx\<close>): 32 bits, signed. The
  storage that \<^verbatim>\<open>buf_ptr\<close> points to is the byte list held in the record. A pointer to
  a control block is an \<open>option\<close>: \<open>None\<close> is the null pointer.
\<close>

record ring_buffer =
  size_rb :: int32
  buf_ptr :: "byte list"
  write_idx :: int32
  read_idx :: int32

subsection \<open>Allocation\<close>

text \<open>
  The allocator is a parameter of \<^verbatim>\<open>rb_create\<close>: whether \<^verbatim>\<open>malloc\<close> of the control
  block succeeds, and for which byte counts \<^verbatim>\<open>calloc\<close> succeeds.
\<close>

record allocator =
  malloc_ok :: bool
  calloc_ok :: "nat \<Rightarrow> bool"

text \<open>The conversion of an \<^verbatim>\<open>int\<close> argument to a 64-bit \<^verbatim>\<open>size_t\<close> (sign extension).\<close>

definition size_t_of_int :: "int32 \<Rightarrow> nat" where
  "size_t_of_int n = unat (scast n :: 64 word)"

definition rb_create :: "allocator \<Rightarrow> int32 \<Rightarrow> ring_buffer option" where
  "rb_create al sz =
     (if sz AND 0xff \<noteq> 0 then None
      else if \<not> malloc_ok al then None
      else if \<not> calloc_ok al (size_t_of_int sz) then None
      else Some \<lparr> size_rb = sz, buf_ptr = replicate (size_t_of_int sz) 0,
                  write_idx = 0, read_idx = 0 \<rparr>)"

subsection \<open>Capacity queries\<close>

definition rb_available_to_write :: "ring_buffer option \<Rightarrow> fault + int32" where
  "rb_available_to_write buffer =
     (case buffer of
        Some b \<Rightarrow>
          let r = fst (sync_fetch_and_or (read_idx b) 0);
              w = fst (sync_fetch_and_or (write_idx b) 0)
          in c_mod (size_rb b + r - w - 1) (size_rb b)
      | None \<Rightarrow> Inr 0)"

definition rb_available_to_read :: "ring_buffer option \<Rightarrow> fault + int32" where
  "rb_available_to_read buffer =
     (case buffer of
        Some b \<Rightarrow>
          let r = fst (sync_fetch_and_or (read_idx b) 0);
              w = fst (sync_fetch_and_or (write_idx b) 0)
          in c_mod (size_rb b + w - r) (size_rb b)
      | None \<Rightarrow> Inr 0)"

subsection \<open>Writing and reading\<close>

text \<open>
  \<^verbatim>\<open>rb_write_to_buffer(buffer, src, len)\<close>. The result is the returned \<^verbatim>\<open>int\<close> and the
  control block after the call. The checks are made in the order of the source:
  \<^verbatim>\<open>len == 0\<close>, then \<^verbatim>\<open>!buffer\<close>, \<^verbatim>\<open>len < 0\<close>, \<^verbatim>\<open>len > rb_available_to_write(buffer)\<close>.
  \<open>write_copy\<close> is the \<^verbatim>\<open>if\<close>/\<^verbatim>\<open>else\<close> of the function with its one or two calls of
  \<^verbatim>\<open>memcpy\<close>; the new position \<^verbatim>\<open>(write_idx + len) % buffer->size\<close> is computed after the
  copy and stored by the compare-and-swap. \<open>read_copy\<close> is the same part of
  \<^verbatim>\<open>rb_read_from_buffer\<close>.
\<close>

definition write_copy :: "ring_buffer \<Rightarrow> byte list \<Rightarrow> int32 \<Rightarrow> fault + byte list" where
  "write_copy b src len =
     (let w = write_idx b in
      if w + len \<le>s size_rb b then
        memcpy (buf_ptr b) (sint w) src 0 (sint len)
      else
        let d = size_rb b - w in
        and_then (memcpy (buf_ptr b) (sint w) src 0 (sint d))
          (\<lambda>buf1. memcpy buf1 0 src (sint d) (sint (len - d))))"

definition rb_write_to_buffer ::
  "ring_buffer option \<Rightarrow> byte list \<Rightarrow> int32 \<Rightarrow> fault + (int32 \<times> ring_buffer option)" where
  "rb_write_to_buffer buffer src len =
     (if len = 0 then Inr (0, buffer)
      else case buffer of
        None \<Rightarrow> Inr (- 1, buffer)
      | Some b \<Rightarrow>
          if len <s 0 then Inr (- 1, buffer)
          else and_then (rb_available_to_write buffer) (\<lambda>avail.
            if avail <s len then Inr (- 1, buffer)
            else
              let w = write_idx b in
              and_then (write_copy b src len) (\<lambda>buf'.
              and_then (c_mod (w + len) (size_rb b)) (\<lambda>new_idx.
                Inr (0, Some (b \<lparr> buf_ptr := buf',
                     write_idx := sync_val_compare_and_swap (write_idx b) w new_idx \<rparr>))))))"

text \<open>
  \<^verbatim>\<open>rb_read_from_buffer(buffer, dest, len)\<close>. The result is the returned \<^verbatim>\<open>int\<close>, the
  control block after the call and the destination object after the call.
\<close>

definition read_copy :: "ring_buffer \<Rightarrow> byte list \<Rightarrow> int32 \<Rightarrow> fault + byte list" where
  "read_copy b dest len =
     (let r = read_idx b in
      if r + len \<le>s size_rb b then
        memcpy dest 0 (buf_ptr b) (sint r) (sint len)
      else
        let d = size_rb b - r in
        and_then (memcpy dest 0 (buf_ptr b) (sint r) (sint d))
          (\<lambda>dest1. memcpy dest1 (sint d) (buf_ptr b) 0 (sint (len - d))))"

definition rb_read_from_buffer ::
  "ring_buffer option \<Rightarrow> byte list \<Rightarrow> int32
     \<Rightarrow> fault + (int32 \<times> ring_buffer option \<times> byte list)" where
  "rb_read_from_buffer buffer dest len =
     (if len = 0 then Inr (0, buffer, dest)
      else case buffer of
        None \<Rightarrow> Inr (- 1, buffer, dest)
      | Some b \<Rightarrow>
          if len <s 0 then Inr (- 1, buffer, dest)
          else and_then (rb_available_to_read buffer) (\<lambda>avail.
            if avail <s len then Inr (- 1, buffer, dest)
            else
              let r = read_idx b in
              and_then (read_copy b dest len) (\<lambda>dest'.
              and_then (c_mod (r + len) (size_rb b)) (\<lambda>new_idx.
                Inr (0, Some (b \<lparr> read_idx :=
                       sync_val_compare_and_swap (read_idx b) r new_idx \<rparr>), dest')))))"

subsection \<open>Sequences of calls\<close>

text \<open>
  A client's call of \<^verbatim>\<open>rb_write_to_buffer\<close> or \<^verbatim>\<open>rb_read_from_buffer\<close>, with the object
  passed as \<^verbatim>\<open>src\<close> or \<^verbatim>\<open>dest\<close> and the length. \<open>run\<close> performs a list of calls in
  order on the same control block and stops at the first fault.
\<close>

datatype rb_call = Write_Call "byte list" int32 | Read_Call "byte list" int32

fun step :: "ring_buffer option \<Rightarrow> rb_call \<Rightarrow> fault + ring_buffer option" where
  "step buffer (Write_Call src len) =
     and_then (rb_write_to_buffer buffer src len) (\<lambda>res. Inr (snd res))"
| "step buffer (Read_Call dest len) =
     and_then (rb_read_from_buffer buffer dest len) (\<lambda>res. Inr (fst (snd res)))"

fun run :: "ring_buffer option \<Rightarrow> rb_call list \<Rightarrow> fault + ring_buffer option" where
  "run buffer [] = Inr buffer"
| "run buffer (c # cs) = and_then (step buffer c) (\<lambda>buffer'. run buffer' cs)"

text \<open>
  The precondition of C on the object passed to a call: it holds at least \<^verbatim>\<open>len\<close> bytes.
\<close>

fun call_ok :: "rb_call \<Rightarrow> bool" where
  "call_ok (Write_Call src len) = (sint len \<le> int (length src))"
| "call_ok (Read_Call dest len) = (sint len \<le> int (length dest))"

subsection \<open>Specification-level notions\<close>

text \<open>
  The structural invariant of a control block: the capacity is positive, the storage has
  exactly that many bytes, and both positions are in \<open>[0, capacity)\<close>.
\<close>

definition rb_struct :: "ring_buffer \<Rightarrow> bool" where
  "rb_struct b =
     (0 < sint (size_rb b) \<and> int (length (buf_ptr b)) = sint (size_rb b)
      \<and> 0 \<le> sint (write_idx b) \<and> sint (write_idx b) < sint (size_rb b)
      \<and> 0 \<le> sint (read_idx b) \<and> sint (read_idx b) < sint (size_rb b))"

text \<open>
  The capacities for which no sum of a capacity and a position, or of a position and a
  length, leaves the range of \<^verbatim>\<open>int\<close>: at most \<open>2 ^ 30\<close>.
\<close>

definition rb_wf :: "ring_buffer \<Rightarrow> bool" where
  "rb_wf b = (rb_struct b \<and> sint (size_rb b) \<le> 2 ^ 30)"

text \<open>The formulas of the specification for the two queries, over the integers.\<close>

definition spec_available_to_write :: "int \<Rightarrow> int \<Rightarrow> int \<Rightarrow> int" where
  "spec_available_to_write capacity read_position write_position =
     (capacity + read_position - write_position - 1) mod capacity"

definition spec_available_to_read :: "int \<Rightarrow> int \<Rightarrow> int \<Rightarrow> int" where
  "spec_available_to_read capacity read_position write_position =
     (capacity + write_position - read_position) mod capacity"

text \<open>
  The capacity and the two positions of the data model, as natural numbers (meaningful
  on a structurally valid control block, where the three fields are not negative).
\<close>

definition capacity :: "ring_buffer \<Rightarrow> nat" where
  "capacity b = nat (sint (size_rb b))"

definition write_position :: "ring_buffer \<Rightarrow> nat" where
  "write_position b = nat (sint (write_idx b))"

definition read_position :: "ring_buffer \<Rightarrow> nat" where
  "read_position b = nat (sint (read_idx b))"

text \<open>One contiguous copy of \<open>bytes\<close> into \<open>dst\<close> at offset \<open>off\<close>.\<close>

definition block_copy :: "byte list \<Rightarrow> nat \<Rightarrow> byte list \<Rightarrow> byte list" where
  "block_copy dst off bytes = take off dst @ bytes @ drop (off + length bytes) dst"

text \<open>
  The storage after writing the bytes \<open>B\<close> at position \<open>w\<close> of a buffer of capacity \<open>C\<close>,
  in the words of the specification: one block at offset \<open>w\<close> if it fits before the end
  of the storage, otherwise \<open>C - w\<close> bytes at the tail and the remaining bytes at offset 0.
\<close>

definition spec_write_storage :: "byte list \<Rightarrow> nat \<Rightarrow> nat \<Rightarrow> byte list \<Rightarrow> byte list" where
  "spec_write_storage buf w C B =
     (if w + length B \<le> C then block_copy buf w B
      else block_copy (block_copy buf w (take (C - w) B)) 0 (drop (C - w) B))"

text \<open>
  The destination after reading \<open>L\<close> bytes at position \<open>r\<close>: one block from offset \<open>r\<close>, or
  \<open>C - r\<close> bytes from the tail followed by the remaining bytes from offset 0.
\<close>

definition spec_read_dest :: "byte list \<Rightarrow> nat \<Rightarrow> nat \<Rightarrow> byte list \<Rightarrow> nat \<Rightarrow> byte list" where
  "spec_read_dest dest r C buf L =
     (if r + L \<le> C then block_copy dest 0 (take L (drop r buf))
      else block_copy (block_copy dest 0 (take (C - r) (drop r buf))) (C - r)
             (take (L - (C - r)) buf))"

text \<open>
  The control block after a write of \<open>len\<close> bytes that passed the checks, and after such
  a read: the storage holds the bytes as \<open>spec_write_storage\<close> places them, and the
  position has advanced by \<open>len\<close> modulo the capacity.
\<close>

definition spec_written :: "ring_buffer \<Rightarrow> byte list \<Rightarrow> int32 \<Rightarrow> ring_buffer" where
  "spec_written b src len =
     b \<lparr> buf_ptr := spec_write_storage (buf_ptr b) (nat (sint (write_idx b)))
                      (nat (sint (size_rb b))) (take (nat (sint len)) src),
         write_idx := word_of_int ((sint (write_idx b) + sint len) mod sint (size_rb b)) \<rparr>"

definition spec_read_advanced :: "ring_buffer \<Rightarrow> int32 \<Rightarrow> ring_buffer" where
  "spec_read_advanced b len =
     b \<lparr> read_idx := word_of_int ((sint (read_idx b) + sint len) mod sint (size_rb b)) \<rparr>"

text \<open>An allocator for which every request succeeds.\<close>

definition alloc_always :: allocator where
  "alloc_always = \<lparr> malloc_ok = True, calloc_ok = (\<lambda>n. True) \<rparr>"

text \<open>An allocator that has no memory left.\<close>

definition alloc_never :: allocator where
  "alloc_never = \<lparr> malloc_ok = False, calloc_ok = (\<lambda>n. False) \<rparr>"

section \<open>Verification\<close>

subsection \<open>Signed 32-bit arithmetic without overflow, and with\<close>

lemma sint_add32:
  "- 2147483648 \<le> sint a + sint b \<Longrightarrow> sint a + sint b < 2147483648
   \<Longrightarrow> sint (a + b :: int32) = sint a + sint b"
  by (simp add: sint_word_ariths signed_take_bit_int_eq_self)

lemma sint_sub32:
  "- 2147483648 \<le> sint a - sint b \<Longrightarrow> sint a - sint b < 2147483648
   \<Longrightarrow> sint (a - b :: int32) = sint a - sint b"
  by (simp add: sint_word_ariths signed_take_bit_int_eq_self)

lemma sint_of_int32:
  "- 2147483648 \<le> k \<Longrightarrow> k < 2147483648 \<Longrightarrow> sint (word_of_int k :: int32) = k"
  by (simp add: sint_sbintrunc' signed_take_bit_int_eq_self)

lemma sint_add32_mod:
  "sint (a + b :: int32) = (sint a + sint b + 2147483648) mod 4294967296 - 2147483648"
  by (simp add: sint_word_ariths signed_take_bit_eq_take_bit_shift take_bit_eq_mod)

lemma sint_add32_wrap:
  assumes "2147483648 \<le> sint a + sint b"
  shows "sint (a + b :: int32) = sint a + sint b - 4294967296"
proof -
  have r: "sint a < 2147483648" "sint b < 2147483648"
    using sint_lt [of a] sint_lt [of b] by simp_all
  define y where "y = sint a + sint b + 2147483648 - 4294967296"
  have y: "0 \<le> y" "y < 4294967296" using assms r by (simp_all add: y_def)
  have "sint a + sint b + 2147483648 = y + 4294967296"
    by (simp add: y_def)
  then have "(sint a + sint b + 2147483648) mod 4294967296 = (y + 4294967296) mod 4294967296"
    by (simp only:)
  also have "\<dots> = y mod 4294967296" by (simp only: mod_add_self2)
  also have "\<dots> = y" using y by (simp only: mod_pos_pos_trivial)
  finally show ?thesis by (simp add: sint_add32_mod y_def)
qed

lemma smod_nonneg: "0 \<le> a \<Longrightarrow> 0 < b \<Longrightarrow> (a :: int) smod b = a mod b"
  by (simp add: smod_int_alt_def sgn_if)

lemma c_mod_pos:
  "0 \<le> sint a \<Longrightarrow> 0 < sint b \<Longrightarrow> c_mod a b = Inr (word_of_int (sint a mod sint b))"
  by (auto simp: c_mod_def smod_nonneg)

lemma c_mod_range:
  assumes "c_mod a b = Inr v" "0 < sint b"
  shows "- sint b < sint v \<and> sint v < sint b"
proof -
  have b: "sint b < 2147483648" using sint_lt [of b] by simp
  from assms(2) have "b \<noteq> 0" by auto
  with assms have v: "v = word_of_int (sint a smod sint b)"
    by (simp add: c_mod_def split: if_splits)
  have "sint a smod sint b \<in> {- \<bar>sint b\<bar> + 1..\<bar>sint b\<bar> - 1}"
    using assms(2) by (intro smod_int_range) simp
  then have r: "- sint b < sint a smod sint b" "sint a smod sint b < sint b"
    using assms(2) by auto
  then have "sint v = sint a smod sint b"
    unfolding v using b by (intro sint_of_int32) simp_all
  with r show ?thesis by simp
qed

subsection \<open>The copies\<close>

lemma nat_int_diff: "nat (int a - int b) = a - b"
  by simp

lemma write_copy_eq:
  assumes st: "rb_struct b" and L: "0 < sint len" "sint len < sint (size_rb b)"
  shows "write_copy b src len =
     (if 2147483648 \<le> sint (write_idx b) + sint len \<or> int (length src) < sint len
      then Inl Out_Of_Bounds
      else Inr (spec_write_storage (buf_ptr b) (nat (sint (write_idx b)))
                  (nat (sint (size_rb b))) (take (nat (sint len)) src)))"
proof -
  from st have s: "0 < sint (size_rb b)" "int (length (buf_ptr b)) = sint (size_rb b)"
     "0 \<le> sint (write_idx b)" "sint (write_idx b) < sint (size_rb b)"
    by (simp_all add: rb_struct_def)
  have rng: "sint (size_rb b) < 2147483648" using sint_lt [of "size_rb b"] by simp
  obtain W where W: "sint (write_idx b) = int W" using s(3) by (metis zero_le_imp_eq_int)
  obtain N where N: "sint len = int N" using L(1) by (metis zero_le_imp_eq_int less_imp_le)
  obtain C where C: "sint (size_rb b) = int C" using s(1) by (metis zero_le_imp_eq_int less_imp_le)
  from s L rng have n: "W < C" "0 < N" "N < C" "length (buf_ptr b) = C" "C < 2147483648"
    by (simp_all add: W N C)
  show ?thesis
  proof (cases "2147483648 \<le> sint (write_idx b) + sint len")
    case True
    then have "sint (write_idx b + len) = sint (write_idx b) + sint len - 4294967296"
      by (rule sint_add32_wrap)
    then show ?thesis using True s L rng
      by (simp add: write_copy_def word_sle_eq memcpy_def)
  next
    case False
    then have sum: "sint (write_idx b + len) = int (W + N)"
      using s L by (subst sint_add32) (simp_all add: W N)
    have d: "sint (size_rb b - write_idx b) = int (C - W)"
      using s rng n by (subst sint_sub32) (simp_all add: W C of_nat_diff)
    have ld: "W + N > C \<Longrightarrow> sint (len - (size_rb b - write_idx b)) = int (N - (C - W))"
      using s L rng n by (subst sint_sub32) (simp_all add: d N of_nat_diff)
    show ?thesis
    proof (cases "W + N \<le> C")
      case True
      then show ?thesis using False n
        by (auto simp add: write_copy_def word_sle_eq sum memcpy_def spec_write_storage_def
            block_copy_def Let_def W N C simp flip: of_nat_add)
    next
      case wrap: False
      then show ?thesis using False n
        by (auto simp add: write_copy_def word_sle_eq sum d ld memcpy_def and_then_def
            spec_write_storage_def block_copy_def Let_def W N C nat_int_diff drop_take
            simp flip: of_nat_add)
    qed
  qed
qed


lemma read_copy_eq:
  assumes st: "rb_struct b" and L: "0 < sint len" "sint len < sint (size_rb b)"
  shows "read_copy b dest len =
     (if 2147483648 \<le> sint (read_idx b) + sint len \<or> int (length dest) < sint len
      then Inl Out_Of_Bounds
      else Inr (spec_read_dest dest (nat (sint (read_idx b)))
                  (nat (sint (size_rb b))) (buf_ptr b) (nat (sint len))))"
proof -
  from st have s: "0 < sint (size_rb b)" "int (length (buf_ptr b)) = sint (size_rb b)"
     "0 \<le> sint (read_idx b)" "sint (read_idx b) < sint (size_rb b)"
    by (simp_all add: rb_struct_def)
  have rng: "sint (size_rb b) < 2147483648" using sint_lt [of "size_rb b"] by simp
  obtain R where R: "sint (read_idx b) = int R" using s(3) by (metis zero_le_imp_eq_int)
  obtain N where N: "sint len = int N" using L(1) by (metis zero_le_imp_eq_int less_imp_le)
  obtain C where C: "sint (size_rb b) = int C" using s(1) by (metis zero_le_imp_eq_int less_imp_le)
  from s L rng have n: "R < C" "0 < N" "N < C" "length (buf_ptr b) = C" "C < 2147483648"
    by (simp_all add: R N C)
  show ?thesis
  proof (cases "2147483648 \<le> sint (read_idx b) + sint len")
    case True
    then have "sint (read_idx b + len) = sint (read_idx b) + sint len - 4294967296"
      by (rule sint_add32_wrap)
    then show ?thesis using True s L rng
      by (simp add: read_copy_def word_sle_eq memcpy_def)
  next
    case False
    then have sum: "sint (read_idx b + len) = int (R + N)"
      using s L by (subst sint_add32) (simp_all add: R N)
    have d: "sint (size_rb b - read_idx b) = int (C - R)"
      using s rng n by (subst sint_sub32) (simp_all add: R C of_nat_diff)
    have ld: "R + N > C \<Longrightarrow> sint (len - (size_rb b - read_idx b)) = int (N - (C - R))"
      using s L rng n by (subst sint_sub32) (simp_all add: d N of_nat_diff)
    show ?thesis
    proof (cases "R + N \<le> C")
      case True
      then show ?thesis using False n
        by (auto simp add: read_copy_def word_sle_eq sum memcpy_def spec_read_dest_def
            block_copy_def Let_def R N C simp flip: of_nat_add)
    next
      case wrap: False
      then show ?thesis using False n
        by (auto simp add: read_copy_def word_sle_eq sum d ld memcpy_def and_then_def
            spec_read_dest_def block_copy_def Let_def R N C nat_int_diff drop_take
            simp flip: of_nat_add)
    qed
  qed
qed


subsection \<open>The two operations on a structurally valid control block\<close>

lemma cas_same [simp]: "sync_val_compare_and_swap c c n = n"
  by (simp add: sync_val_compare_and_swap_def)

lemma fetch_or_zero [simp]: "sync_fetch_and_or c 0 = (c, c)"
  by (simp add: sync_fetch_and_or_def)

lemma avail_write_range:
  assumes "rb_available_to_write (Some b) = Inr a" "0 < sint (size_rb b)"
  shows "sint a < sint (size_rb b)"
  using assms c_mod_range [of _ "size_rb b" a]
  by (simp add: rb_available_to_write_def)

lemma avail_read_range:
  assumes "rb_available_to_read (Some b) = Inr a" "0 < sint (size_rb b)"
  shows "sint a < sint (size_rb b)"
  using assms c_mod_range [of _ "size_rb b" a]
  by (simp add: rb_available_to_read_def)

lemma write_some_eq:
  assumes st: "rb_struct b" and av: "rb_available_to_write (Some b) = Inr a"
    and L: "0 < sint len" "sint len \<le> sint a"
  shows "rb_write_to_buffer (Some b) src len =
     (if 2147483648 \<le> sint (write_idx b) + sint len \<or> int (length src) < sint len
      then Inl Out_Of_Bounds
      else Inr (0, Some (b \<lparr> buf_ptr := spec_write_storage (buf_ptr b)
                    (nat (sint (write_idx b))) (nat (sint (size_rb b))) (take (nat (sint len)) src),
                  write_idx := word_of_int ((sint (write_idx b) + sint len) mod sint (size_rb b)) \<rparr>)))"
proof -
  from st have s: "0 < sint (size_rb b)" "0 \<le> sint (write_idx b)"
    by (simp_all add: rb_struct_def)
  have lt: "sint len < sint (size_rb b)"
    using avail_write_range [OF av s(1)] L by simp
  have ne: "len \<noteq> 0" using L(1) by auto
  have chk: "\<not> len <s 0" "\<not> a <s len" using L by (simp_all add: word_sless_alt)
  have wc: "write_copy b src len =
     (if 2147483648 \<le> sint (write_idx b) + sint len \<or> int (length src) < sint len
      then Inl Out_Of_Bounds
      else Inr (spec_write_storage (buf_ptr b) (nat (sint (write_idx b)))
                  (nat (sint (size_rb b))) (take (nat (sint len)) src)))"
    using st L(1) lt by (rule write_copy_eq)
  show ?thesis
  proof (cases "2147483648 \<le> sint (write_idx b) + sint len \<or> int (length src) < sint len")
    case True
    then show ?thesis
      by (simp add: rb_write_to_buffer_def ne chk av wc and_then_def Let_def)
  next
    case False
    then have "sint (write_idx b + len) = sint (write_idx b) + sint len"
      using s L by (intro sint_add32) simp_all
    then have "c_mod (write_idx b + len) (size_rb b)
       = Inr (word_of_int ((sint (write_idx b) + sint len) mod sint (size_rb b)))"
      using s L by (simp add: c_mod_pos)
    then show ?thesis using False
      by (simp add: rb_write_to_buffer_def ne chk av wc and_then_def Let_def)
  qed
qed

lemma read_some_eq:
  assumes st: "rb_struct b" and av: "rb_available_to_read (Some b) = Inr a"
    and L: "0 < sint len" "sint len \<le> sint a"
  shows "rb_read_from_buffer (Some b) dest len =
     (if 2147483648 \<le> sint (read_idx b) + sint len \<or> int (length dest) < sint len
      then Inl Out_Of_Bounds
      else Inr (0, Some (b \<lparr> read_idx :=
                    word_of_int ((sint (read_idx b) + sint len) mod sint (size_rb b)) \<rparr>),
                spec_read_dest dest (nat (sint (read_idx b))) (nat (sint (size_rb b)))
                  (buf_ptr b) (nat (sint len))))"
proof -
  from st have s: "0 < sint (size_rb b)" "0 \<le> sint (read_idx b)"
    by (simp_all add: rb_struct_def)
  have lt: "sint len < sint (size_rb b)"
    using avail_read_range [OF av s(1)] L by simp
  have ne: "len \<noteq> 0" using L(1) by auto
  have chk: "\<not> len <s 0" "\<not> a <s len" using L by (simp_all add: word_sless_alt)
  have rc: "read_copy b dest len =
     (if 2147483648 \<le> sint (read_idx b) + sint len \<or> int (length dest) < sint len
      then Inl Out_Of_Bounds
      else Inr (spec_read_dest dest (nat (sint (read_idx b)))
                  (nat (sint (size_rb b))) (buf_ptr b) (nat (sint len))))"
    using st L(1) lt by (rule read_copy_eq)
  show ?thesis
  proof (cases "2147483648 \<le> sint (read_idx b) + sint len \<or> int (length dest) < sint len")
    case True
    then show ?thesis
      by (simp add: rb_read_from_buffer_def ne chk av rc and_then_def Let_def)
  next
    case False
    then have "sint (read_idx b + len) = sint (read_idx b) + sint len"
      using s L by (intro sint_add32) simp_all
    then have "c_mod (read_idx b + len) (size_rb b)
       = Inr (word_of_int ((sint (read_idx b) + sint len) mod sint (size_rb b)))"
      using s L by (simp add: c_mod_pos)
    then show ?thesis using False
      by (simp add: rb_read_from_buffer_def ne chk av rc and_then_def Let_def)
  qed
qed

lemma write_rejected:
  assumes "len \<noteq> 0" "len <s 0 \<or> (\<exists>a. rb_available_to_write (Some b) = Inr a \<and> a <s len)"
  shows "rb_write_to_buffer (Some b) src len = Inr (- 1, Some b)"
  using assms by (auto simp: rb_write_to_buffer_def and_then_def)

lemma read_rejected:
  assumes "len \<noteq> 0" "len <s 0 \<or> (\<exists>a. rb_available_to_read (Some b) = Inr a \<and> a <s len)"
  shows "rb_read_from_buffer (Some b) dest len = Inr (- 1, Some b, dest)"
  using assms by (auto simp: rb_read_from_buffer_def and_then_def)


subsection \<open>Capacities up to \<open>2 ^ 30\<close>: the queries compute the specified formulas\<close>

lemma avail_write_wf:
  assumes "rb_wf b"
  shows "rb_available_to_write (Some b) =
     Inr (word_of_int (spec_available_to_write (sint (size_rb b)) (sint (read_idx b)) (sint (write_idx b))))"
proof -
  from assms have s: "0 < sint (size_rb b)" "sint (size_rb b) \<le> 1073741824"
     "0 \<le> sint (write_idx b)" "sint (write_idx b) < sint (size_rb b)"
     "0 \<le> sint (read_idx b)" "sint (read_idx b) < sint (size_rb b)"
    by (simp_all add: rb_wf_def rb_struct_def)
  have 1: "sint (size_rb b + read_idx b) = sint (size_rb b) + sint (read_idx b)"
    using s by (intro sint_add32) simp_all
  have 2: "sint (size_rb b + read_idx b - write_idx b)
      = sint (size_rb b) + sint (read_idx b) - sint (write_idx b)"
    using s by (subst sint_sub32) (simp_all add: 1)
  have 3: "sint (size_rb b + read_idx b - write_idx b - 1)
      = sint (size_rb b) + sint (read_idx b) - sint (write_idx b) - 1"
    using s by (subst sint_sub32) (simp_all add: 2)
  show ?thesis
    using s by (simp add: rb_available_to_write_def sync_fetch_and_or_def c_mod_pos 3
        spec_available_to_write_def)
qed

lemma avail_read_wf:
  assumes "rb_wf b"
  shows "rb_available_to_read (Some b) =
     Inr (word_of_int (spec_available_to_read (sint (size_rb b)) (sint (read_idx b)) (sint (write_idx b))))"
proof -
  from assms have s: "0 < sint (size_rb b)" "sint (size_rb b) \<le> 1073741824"
     "0 \<le> sint (write_idx b)" "sint (write_idx b) < sint (size_rb b)"
     "0 \<le> sint (read_idx b)" "sint (read_idx b) < sint (size_rb b)"
    by (simp_all add: rb_wf_def rb_struct_def)
  have 1: "sint (size_rb b + write_idx b) = sint (size_rb b) + sint (write_idx b)"
    using s by (intro sint_add32) simp_all
  have 2: "sint (size_rb b + write_idx b - read_idx b)
      = sint (size_rb b) + sint (write_idx b) - sint (read_idx b)"
    using s by (subst sint_sub32) (simp_all add: 1)
  show ?thesis
    using s by (simp add: rb_available_to_read_def c_mod_pos 2 spec_available_to_read_def)
qed

lemma spec_available_to_write_range:
  assumes "0 \<le> r" "r < C" "0 \<le> w" "w < C"
  shows "0 \<le> spec_available_to_write C r w" "spec_available_to_write C r w < C"
  using assms by (simp_all add: spec_available_to_write_def)

lemma spec_available_to_read_range:
  assumes "0 \<le> r" "r < C" "0 \<le> w" "w < C"
  shows "0 \<le> spec_available_to_read C r w" "spec_available_to_read C r w < C"
  using assms by (simp_all add: spec_available_to_read_def)

lemma mod_shift_down: "C \<le> x \<Longrightarrow> x < 2 * C \<Longrightarrow> (x :: int) mod C = x - C"
proof -
  assume a: "C \<le> x" "x < 2 * C"
  have "x mod C = (x - C) mod C" by (simp only: minus_mod_self2)
  also have "\<dots> = x - C" using a by (intro mod_pos_pos_trivial) simp_all
  finally show ?thesis .
qed

lemma spec_conservation:
  assumes "0 \<le> r" "r < C" "0 \<le> w" "w < C"
  shows "spec_available_to_read C r w + spec_available_to_write C r w = C - 1"
proof (cases "r \<le> w")
  case True
  have "(C + w - r) mod C = w - r"
    using assms True mod_shift_down [of C "C + w - r"] by simp
  moreover have "(C + r - w - 1) mod C = C + r - w - 1"
    using assms True by (intro mod_pos_pos_trivial) simp_all
  ultimately show ?thesis
    by (simp add: spec_available_to_read_def spec_available_to_write_def)
next
  case False
  have "(C + w - r) mod C = C + w - r"
    using assms False by (intro mod_pos_pos_trivial) simp_all
  moreover have "(C + r - w - 1) mod C = r - w - 1"
    using assms False mod_shift_down [of C "C + r - w - 1"] by simp
  ultimately show ?thesis
    by (simp add: spec_available_to_read_def spec_available_to_write_def)
qed

lemma sint_avail_write_wf:
  assumes "rb_wf b" "rb_available_to_write (Some b) = Inr a"
  shows "sint a = spec_available_to_write (sint (size_rb b)) (sint (read_idx b)) (sint (write_idx b))"
proof -
  from assms(1) have s: "0 < sint (size_rb b)"
     "0 \<le> sint (write_idx b)" "sint (write_idx b) < sint (size_rb b)"
     "0 \<le> sint (read_idx b)" "sint (read_idx b) < sint (size_rb b)"
    by (simp_all add: rb_wf_def rb_struct_def)
  have rng: "sint (size_rb b) < 2147483648" using sint_lt [of "size_rb b"] by simp
  from assms have "a = word_of_int (spec_available_to_write (sint (size_rb b))
      (sint (read_idx b)) (sint (write_idx b)))"
    by (simp add: avail_write_wf)
  then show ?thesis
    using spec_available_to_write_range [OF s(4,5,2,3)] rng
    by (simp add: sint_of_int32)
qed

lemma sint_avail_read_wf:
  assumes "rb_wf b" "rb_available_to_read (Some b) = Inr a"
  shows "sint a = spec_available_to_read (sint (size_rb b)) (sint (read_idx b)) (sint (write_idx b))"
proof -
  from assms(1) have s: "0 < sint (size_rb b)"
     "0 \<le> sint (write_idx b)" "sint (write_idx b) < sint (size_rb b)"
     "0 \<le> sint (read_idx b)" "sint (read_idx b) < sint (size_rb b)"
    by (simp_all add: rb_wf_def rb_struct_def)
  have rng: "sint (size_rb b) < 2147483648" using sint_lt [of "size_rb b"] by simp
  from assms have "a = word_of_int (spec_available_to_read (sint (size_rb b))
      (sint (read_idx b)) (sint (write_idx b)))"
    by (simp add: avail_read_wf)
  then show ?thesis
    using spec_available_to_read_range [OF s(4,5,2,3)] rng
    by (simp add: sint_of_int32)
qed

lemma avail_write_wf_ex: "rb_wf b \<Longrightarrow> \<exists>a. rb_available_to_write (Some b) = Inr a"
  by (simp add: avail_write_wf)

lemma avail_read_wf_ex: "rb_wf b \<Longrightarrow> \<exists>a. rb_available_to_read (Some b) = Inr a"
  by (simp add: avail_read_wf)

lemma sint_new_idx:
  assumes "0 < sint (C :: int32)" "0 \<le> x"
  shows "sint (word_of_int (x mod sint C) :: int32) = x mod sint C"
proof -
  have rng: "sint C < 2147483648" using sint_lt [of C] by simp
  have "0 \<le> x mod sint C" "x mod sint C < sint C" using assms by simp_all
  then show ?thesis using rng by (intro sint_of_int32) simp_all
qed

lemma length_spec_write_storage:
  "length buf = C \<Longrightarrow> w < C \<Longrightarrow> length B < C \<Longrightarrow> length (spec_write_storage buf w C B) = C"
  by (simp add: spec_write_storage_def block_copy_def)


subsection \<open>Capacities up to \<open>2 ^ 30\<close>: no call faults and the invariant is kept\<close>

lemma write_some_written:
  assumes "rb_struct b" "rb_available_to_write (Some b) = Inr a" "0 < sint len" "sint len \<le> sint a"
    "sint (write_idx b) + sint len < 2147483648" "sint len \<le> int (length src)"
  shows "rb_write_to_buffer (Some b) src len = Inr (0, Some (spec_written b src len))"
  using assms by (simp add: write_some_eq spec_written_def)

lemma read_some_advanced:
  assumes "rb_struct b" "rb_available_to_read (Some b) = Inr a" "0 < sint len" "sint len \<le> sint a"
    "sint (read_idx b) + sint len < 2147483648" "sint len \<le> int (length dest)"
  shows "rb_read_from_buffer (Some b) dest len =
     Inr (0, Some (spec_read_advanced b len),
          spec_read_dest dest (nat (sint (read_idx b))) (nat (sint (size_rb b)))
            (buf_ptr b) (nat (sint len)))"
  using assms by (simp add: read_some_eq spec_read_advanced_def)

lemma rb_struct_written:
  assumes "rb_struct b" "0 < sint len" "sint len < sint (size_rb b)"
  shows "rb_struct (spec_written b src len)"
proof -
  from assms(1) have s: "0 < sint (size_rb b)" "int (length (buf_ptr b)) = sint (size_rb b)"
     "0 \<le> sint (write_idx b)" "sint (write_idx b) < sint (size_rb b)"
     "0 \<le> sint (read_idx b)" "sint (read_idx b) < sint (size_rb b)"
    by (simp_all add: rb_struct_def)
  have idx: "sint (word_of_int ((sint (write_idx b) + sint len) mod sint (size_rb b)) :: int32)
      = (sint (write_idx b) + sint len) mod sint (size_rb b)"
    using s assms(2) by (intro sint_new_idx) simp_all
  have len: "length (spec_write_storage (buf_ptr b) (nat (sint (write_idx b)))
      (nat (sint (size_rb b))) (take (nat (sint len)) src)) = nat (sint (size_rb b))"
    using s assms(2,3) by (intro length_spec_write_storage) auto
  show ?thesis
    using s by (simp add: rb_struct_def spec_written_def idx len)
qed

lemma rb_struct_read_advanced:
  assumes "rb_struct b" "0 < sint len"
  shows "rb_struct (spec_read_advanced b len)"
proof -
  from assms(1) have s: "0 < sint (size_rb b)" "int (length (buf_ptr b)) = sint (size_rb b)"
     "0 \<le> sint (write_idx b)" "sint (write_idx b) < sint (size_rb b)"
     "0 \<le> sint (read_idx b)" "sint (read_idx b) < sint (size_rb b)"
    by (simp_all add: rb_struct_def)
  have idx: "sint (word_of_int ((sint (read_idx b) + sint len) mod sint (size_rb b)) :: int32)
      = (sint (read_idx b) + sint len) mod sint (size_rb b)"
    using s assms(2) by (intro sint_new_idx) simp_all
  show ?thesis
    using s by (simp add: rb_struct_def spec_read_advanced_def idx)
qed

lemma size_written [simp]: "size_rb (spec_written b src len) = size_rb b"
  by (simp add: spec_written_def)

lemma size_read_advanced [simp]: "size_rb (spec_read_advanced b len) = size_rb b"
  by (simp add: spec_read_advanced_def)

lemma len_cases:
  fixes len a :: int32
  obtains "len = 0" | "len \<noteq> 0" "len <s 0 \<or> a <s len" | "0 < sint len" "sint len \<le> sint a"
proof -
  have "(len = 0) = (sint len = sint (0 :: int32))" by (rule word_eq_iff_signed)
  then have "sint len = 0 \<Longrightarrow> len = 0" by simp
  then show ?thesis using that by (fastforce simp: word_sless_alt)
qed

lemma write_total_wf:
  assumes wf: "rb_wf b" and src: "sint len \<le> int (length src)"
  shows "\<exists>ret b'. rb_write_to_buffer (Some b) src len = Inr (ret, Some b')
            \<and> rb_wf b' \<and> size_rb b' = size_rb b"
proof -
  from wf have st: "rb_struct b" and sz: "sint (size_rb b) \<le> 1073741824"
    and s: "0 < sint (size_rb b)" "sint (write_idx b) < sint (size_rb b)"
    by (simp_all add: rb_wf_def rb_struct_def)
  obtain a where a: "rb_available_to_write (Some b) = Inr a"
    using avail_write_wf_ex [OF wf] by blast
  have lt: "sint a < sint (size_rb b)" using avail_write_range [OF a s(1)] .
  show ?thesis
  proof (rule len_cases [where len = len and a = a], goal_cases)
    case 1
    then show ?thesis using wf by (simp add: rb_write_to_buffer_def)
  next
    case 2
    then have "rb_write_to_buffer (Some b) src len = Inr (- 1, Some b)"
      using a by (intro write_rejected) auto
    then show ?thesis using wf by simp
  next
    case 3
    have "rb_write_to_buffer (Some b) src len = Inr (0, Some (spec_written b src len))"
      using st a 3 _ src by (rule write_some_written) (use 3 lt s sz in simp)
    moreover have "rb_struct (spec_written b src len)"
      using st 3(1) by (rule rb_struct_written) (use 3 lt in simp)
    ultimately show ?thesis using sz by (simp add: rb_wf_def)
  qed
qed

lemma read_total_wf:
  assumes wf: "rb_wf b" and dst: "sint len \<le> int (length dest)"
  shows "\<exists>ret b' dest'. rb_read_from_buffer (Some b) dest len = Inr (ret, Some b', dest')
            \<and> rb_wf b' \<and> size_rb b' = size_rb b"
proof -
  from wf have st: "rb_struct b" and sz: "sint (size_rb b) \<le> 1073741824"
    and s: "0 < sint (size_rb b)" "sint (read_idx b) < sint (size_rb b)"
    by (simp_all add: rb_wf_def rb_struct_def)
  obtain a where a: "rb_available_to_read (Some b) = Inr a"
    using avail_read_wf_ex [OF wf] by blast
  have lt: "sint a < sint (size_rb b)" using avail_read_range [OF a s(1)] .
  show ?thesis
  proof (rule len_cases [where len = len and a = a], goal_cases)
    case 1
    then show ?thesis using wf by (simp add: rb_read_from_buffer_def)
  next
    case 2
    then have "rb_read_from_buffer (Some b) dest len = Inr (- 1, Some b, dest)"
      using a by (intro read_rejected) auto
    then show ?thesis using wf by simp
  next
    case 3
    have "rb_read_from_buffer (Some b) dest len =
       Inr (0, Some (spec_read_advanced b len),
          spec_read_dest dest (nat (sint (read_idx b))) (nat (sint (size_rb b)))
            (buf_ptr b) (nat (sint len)))"
      using st a 3 _ dst by (rule read_some_advanced) (use 3 lt s sz in simp)
    moreover have "rb_struct (spec_read_advanced b len)"
      using st 3(1) by (rule rb_struct_read_advanced)
    ultimately show ?thesis using sz by (simp add: rb_wf_def)
  qed
qed

lemma step_wf:
  assumes "rb_wf b" "call_ok c"
  shows "\<exists>b'. step (Some b) c = Inr (Some b') \<and> rb_wf b' \<and> size_rb b' = size_rb b"
proof (cases c)
  case (Write_Call src len)
  with assms write_total_wf [of b len src] show ?thesis
    by (auto simp: and_then_def)
next
  case (Read_Call dest len)
  with assms read_total_wf [of b len dest] show ?thesis
    by (auto simp: and_then_def)
qed

lemma run_wf:
  assumes "rb_wf b" "\<forall>c \<in> set cs. call_ok c"
  shows "\<exists>b'. run (Some b) cs = Inr (Some b') \<and> rb_wf b' \<and> size_rb b' = size_rb b"
  using assms
proof (induction cs arbitrary: b)
  case Nil
  then show ?case by simp
next
  case (Cons c cs)
  then obtain b1 where 1: "step (Some b) c = Inr (Some b1)" "rb_wf b1" "size_rb b1 = size_rb b"
    using step_wf [of b c] by auto
  from Cons.IH [OF 1(2)] Cons.prems(2) obtain b' where
    "run (Some b1) cs = Inr (Some b')" "rb_wf b'" "size_rb b' = size_rb b1"
    by auto
  with 1 show ?case by (simp add: and_then_def)
qed

lemma conservation_wf:
  assumes "rb_wf b"
  shows "\<exists>ar aw. rb_available_to_read (Some b) = Inr ar \<and> rb_available_to_write (Some b) = Inr aw
           \<and> sint ar + sint aw = sint (size_rb b) - 1"
proof -
  from assms have s: "0 < sint (size_rb b)"
     "0 \<le> sint (write_idx b)" "sint (write_idx b) < sint (size_rb b)"
     "0 \<le> sint (read_idx b)" "sint (read_idx b) < sint (size_rb b)"
    by (simp_all add: rb_wf_def rb_struct_def)
  obtain ar where ar: "rb_available_to_read (Some b) = Inr ar"
    using avail_read_wf_ex [OF assms] by blast
  obtain aw where aw: "rb_available_to_write (Some b) = Inr aw"
    using avail_write_wf_ex [OF assms] by blast
  have "sint ar + sint aw = sint (size_rb b) - 1"
    using spec_conservation [OF s(4,5,2,3)]
    by (simp add: sint_avail_read_wf [OF assms ar] sint_avail_write_wf [OF assms aw])
  with ar aw show ?thesis by simp
qed


subsection \<open>Creation\<close>

lemma size_t_of_int_nonneg: "0 \<le> sint n \<Longrightarrow> size_t_of_int n = nat (sint n)"
proof -
  assume a: "0 \<le> sint n"
  have "sint n < 2147483648" using sint_lt [of n] by simp
  then have "take_bit 64 (sint n) = sint n"
    using a by (intro take_bit_int_eq_self) simp_all
  moreover have "unat (scast n :: 64 word) = unat (word_of_int (sint n) :: 64 word)"
    by (simp only: scast_eq)
  moreover have "unat (word_of_int (sint n) :: 64 word) = nat (take_bit 64 (sint n))"
    by (simp only: unsigned_of_int) simp
  ultimately show ?thesis
    by (simp only: size_t_of_int_def)
qed

lemma rb_create_Some:
  assumes "rb_create al sz = Some b"
  shows "b = \<lparr> size_rb = sz, buf_ptr = replicate (size_t_of_int sz) 0,
               write_idx = 0, read_idx = 0 \<rparr>"
  using assms by (simp add: rb_create_def split: if_splits)

lemma rb_create_struct:
  assumes "rb_create al sz = Some b" "0 < sint sz"
  shows "rb_struct b" "size_rb b = sz"
  using assms size_t_of_int_nonneg [of sz]
  by (simp_all add: rb_create_Some [OF assms(1)] rb_struct_def)


subsection \<open>Reading back what was written\<close>

lemma read_after_write:
  assumes "length buf = C" "w < C" "length B < C" "length B \<le> length dest"
  shows "spec_read_dest dest w C (spec_write_storage buf w C B) (length B) = B @ drop (length B) dest"
proof (cases "w + length B \<le> C")
  case True
  then show ?thesis using assms
    by (simp add: spec_read_dest_def spec_write_storage_def block_copy_def)
next
  case False
  then show ?thesis using assms
    by (simp add: spec_read_dest_def spec_write_storage_def block_copy_def)
qed

lemma readable_after_write:
  assumes "0 \<le> w" "w < C" "0 \<le> L" "L < (C :: int)"
  shows "spec_available_to_read C w ((w + L) mod C) = L"
proof (cases "w + L < C")
  case True
  then have "(w + L) mod C = w + L" using assms by (intro mod_pos_pos_trivial) simp_all
  moreover have "(C + L) mod C = L" using assms by simp
  ultimately show ?thesis by (simp add: spec_available_to_read_def)
next
  case False
  then have "(w + L) mod C = w + L - C" using assms by (intro mod_shift_down) simp_all
  then show ?thesis using assms by (simp add: spec_available_to_read_def)
qed

subsection \<open>Validation of the capacity and the fresh buffer\<close>

lemma low_byte_zero_iff: "(sz AND 0xff = 0) = (sint sz mod 256 = 0)" for sz :: int32
proof -
  have m: "(0xff :: int32) = mask 8" by (simp add: mask_eq_exp_minus_1)
  have "(sz AND mask 8 = 0) = (2 ^ 8 dvd uint sz)" by (simp only: and_mask_dvd)
  also have "\<dots> = (uint sz mod 256 = 0)" by (simp add: dvd_eq_mod_eq_0)
  also have "uint sz mod 256 = sint sz mod 256"
  proof -
    have "uint sz = take_bit 32 (sint sz)" using uint_sint [of sz] by simp
    then have "uint sz mod 256 = (sint sz mod 4294967296) mod 256"
      by (simp add: take_bit_eq_mod)
    also have "\<dots> = sint sz mod 256"
      by (rule mod_mod_cancel) simp
    finally show ?thesis .
  qed
  finally show ?thesis by (simp only: m)
qed

lemma fresh_queries:
  assumes "0 < sint sz"
  shows "rb_available_to_read (Some \<lparr> size_rb = sz, buf_ptr = bs, write_idx = 0, read_idx = 0 \<rparr>) = Inr 0"
    and "rb_available_to_write (Some \<lparr> size_rb = sz, buf_ptr = bs, write_idx = 0, read_idx = 0 \<rparr>)
           = Inr (sz - 1)"
proof -
  have rng: "sint sz < 2147483648" using sint_lt [of sz] by simp
  show "rb_available_to_read (Some \<lparr> size_rb = sz, buf_ptr = bs, write_idx = 0, read_idx = 0 \<rparr>) = Inr 0"
    using assms by (simp add: rb_available_to_read_def c_mod_pos)
  have 1: "sint (sz - 1) = sint sz - 1"
    using assms rng sint_sub32 [of sz 1] by simp
  have 2: "(sint sz - 1) mod sint sz = sint sz - 1"
    using assms by (intro mod_pos_pos_trivial) simp_all
  have 3: "(word_of_int (sint sz - 1) :: int32) = sz - 1" by simp
  have "c_mod (sz - 1) sz = Inr (word_of_int (sint (sz - 1) mod sint sz))"
    using assms 1 by (intro c_mod_pos) simp_all
  then have "c_mod (sz - 1) sz = Inr (sz - 1)"
    by (simp only: 1 2 3)
  then show "rb_available_to_write (Some \<lparr> size_rb = sz, buf_ptr = bs, write_idx = 0, read_idx = 0 \<rparr>)
           = Inr (sz - 1)"
    by (simp add: rb_available_to_write_def)
qed

subsection \<open>What a call that returned 0 has passed\<close>

lemma write_success_D:
  assumes "rb_write_to_buffer (Some b) src len = Inr (0, bo)" "len \<noteq> 0"
  shows "\<exists>a. rb_available_to_write (Some b) = Inr a \<and> 0 < sint len \<and> sint len \<le> sint a"
proof -
  have z: "(len = 0) = (sint len = sint (0 :: int32))" by (rule word_eq_iff_signed)
  from assms obtain a where "rb_available_to_write (Some b) = Inr a" "\<not> len <s 0" "\<not> a <s len"
    by (auto simp: rb_write_to_buffer_def and_then_def split: if_splits sum.splits)
  then show ?thesis using assms(2) z by (auto simp: word_sless_alt)
qed

lemma read_success_D:
  assumes "rb_read_from_buffer (Some b) dest len = Inr (0, bo, dest')" "len \<noteq> 0"
  shows "\<exists>a. rb_available_to_read (Some b) = Inr a \<and> 0 < sint len \<and> sint len \<le> sint a"
proof -
  have z: "(len = 0) = (sint len = sint (0 :: int32))" by (rule word_eq_iff_signed)
  from assms obtain a where "rb_available_to_read (Some b) = Inr a" "\<not> len <s 0" "\<not> a <s len"
    by (auto simp: rb_read_from_buffer_def and_then_def split: if_splits sum.splits)
  then show ?thesis using assms(2) z by (auto simp: word_sless_alt)
qed

lemma write_success_struct:
  assumes st: "rb_struct b" and ne: "len \<noteq> 0"
    and w: "rb_write_to_buffer (Some b) src len = Inr (0, wbuffer)"
  shows "0 < sint len" "sint len < sint (size_rb b)" "sint len \<le> int (length src)"
    "sint (write_idx b) + sint len < 2147483648"
    "wbuffer = Some (spec_written b src len)"
proof -
  from st have s: "0 < sint (size_rb b)" by (simp add: rb_struct_def)
  from w obtain a where a: "rb_available_to_write (Some b) = Inr a"
    and L: "0 < sint len" "sint len \<le> sint a"
    using write_success_D [OF _ ne] by blast
  from w write_some_eq [OF st a L, of src]
  have nf: "\<not> (2147483648 \<le> sint (write_idx b) + sint len \<or> int (length src) < sint len)"
    and r: "wbuffer = Some (spec_written b src len)"
    by (auto simp: spec_written_def split: if_splits)
  show "0 < sint len" by (rule L)
  show "sint len < sint (size_rb b)" using avail_write_range [OF a s] L by simp
  show "sint len \<le> int (length src)" using nf by simp
  show "sint (write_idx b) + sint len < 2147483648" using nf by simp
  show "wbuffer = Some (spec_written b src len)" by (rule r)
qed

lemma read_success_struct:
  assumes st: "rb_struct b" and ne: "len \<noteq> 0"
    and rd: "rb_read_from_buffer (Some b) dest len = Inr (0, rbuffer, dest')"
  shows "0 < sint len" "sint len < sint (size_rb b)" "sint len \<le> int (length dest)"
    "sint (read_idx b) + sint len < 2147483648"
    "rbuffer = Some (spec_read_advanced b len)"
    "dest' = spec_read_dest dest (nat (sint (read_idx b))) (nat (sint (size_rb b)))
               (buf_ptr b) (nat (sint len))"
proof -
  from st have s: "0 < sint (size_rb b)" by (simp add: rb_struct_def)
  from rd obtain a where a: "rb_available_to_read (Some b) = Inr a"
    and L: "0 < sint len" "sint len \<le> sint a"
    using read_success_D [OF _ ne] by blast
  from rd read_some_eq [OF st a L, of dest]
  have nf: "\<not> (2147483648 \<le> sint (read_idx b) + sint len \<or> int (length dest) < sint len)"
    and r: "rbuffer = Some (spec_read_advanced b len)"
    and d: "dest' = spec_read_dest dest (nat (sint (read_idx b))) (nat (sint (size_rb b)))
                      (buf_ptr b) (nat (sint len))"
    by (auto simp: spec_read_advanced_def split: if_splits)
  show "0 < sint len" by (rule L)
  show "sint len < sint (size_rb b)" using avail_read_range [OF a s] L by simp
  show "sint len \<le> int (length dest)" using nf by simp
  show "sint (read_idx b) + sint len < 2147483648" using nf by simp
  show "rbuffer = Some (spec_read_advanced b len)" by (rule r)
  show "dest' = spec_read_dest dest (nat (sint (read_idx b))) (nat (sint (size_rb b)))
               (buf_ptr b) (nat (sint len))" by (rule d)
qed

lemma nat_new_position:
  assumes "0 < sint (C :: int32)" "0 \<le> p" "0 \<le> l"
  shows "nat (sint (word_of_int ((p + l) mod sint C) :: int32)) = (nat p + nat l) mod nat (sint C)"
proof -
  have "sint (word_of_int ((p + l) mod sint C) :: int32) = (p + l) mod sint C"
    using assms by (intro sint_new_idx) simp_all
  then show ?thesis using assms by (simp add: nat_mod_distrib nat_add_distrib)
qed

subsection \<open>Every capacity: a call that returns keeps the structural invariant\<close>

lemma write_return_cases:
  assumes "rb_write_to_buffer (Some b) src len = Inr (ret, bo)"
  shows "bo = Some b \<or> (ret = 0 \<and> len \<noteq> 0)"
  using assms
  by (auto simp: rb_write_to_buffer_def and_then_def Let_def split: if_splits sum.splits)

lemma read_return_cases:
  assumes "rb_read_from_buffer (Some b) dest len = Inr (ret, bo, dest')"
  shows "bo = Some b \<or> (ret = 0 \<and> len \<noteq> 0)"
  using assms
  by (auto simp: rb_read_from_buffer_def and_then_def Let_def split: if_splits sum.splits)

lemma step_struct:
  assumes st: "rb_struct b" and r: "step (Some b) c = Inr bo"
  shows "\<exists>b'. bo = Some b' \<and> rb_struct b' \<and> size_rb b' = size_rb b"
proof (cases c)
  case (Write_Call src len)
  with r obtain ret where w: "rb_write_to_buffer (Some b) src len = Inr (ret, bo)"
    by (auto simp: and_then_def split: sum.splits)
  from write_return_cases [OF w] show ?thesis
  proof
    assume "bo = Some b"
    with st show ?thesis by simp
  next
    assume a: "ret = 0 \<and> len \<noteq> 0"
    then have w0: "rb_write_to_buffer (Some b) src len = Inr (0, bo)" using w by simp
    note f = write_success_struct [OF st _ w0]
    from a have "rb_struct (spec_written b src len)"
      using f(1,2) by (intro rb_struct_written [OF st]) simp_all
    with a f(5) show ?thesis by simp
  qed
next
  case (Read_Call dest len)
  with r obtain ret dest' where rd: "rb_read_from_buffer (Some b) dest len = Inr (ret, bo, dest')"
    by (auto simp: and_then_def split: sum.splits)
  from read_return_cases [OF rd] show ?thesis
  proof
    assume "bo = Some b"
    with st show ?thesis by simp
  next
    assume a: "ret = 0 \<and> len \<noteq> 0"
    then have r0: "rb_read_from_buffer (Some b) dest len = Inr (0, bo, dest')" using rd by simp
    note f = read_success_struct [OF st _ r0]
    from a have "rb_struct (spec_read_advanced b len)"
      using f(1) by (intro rb_struct_read_advanced [OF st]) simp_all
    with a f(5) show ?thesis by simp
  qed
qed

lemma run_struct:
  assumes "rb_struct b" "run (Some b) cs = Inr bo"
  shows "\<exists>b'. bo = Some b' \<and> rb_struct b' \<and> size_rb b' = size_rb b"
  using assms
proof (induction cs arbitrary: b)
  case Nil
  then show ?case by auto
next
  case (Cons c cs)
  from Cons.prems(2) obtain b1o where 1: "step (Some b) c = Inr b1o" "run b1o cs = Inr bo"
    by (auto simp: and_then_def split: sum.splits)
  from step_struct [OF Cons.prems(1) 1(1)] obtain b1 where
    b1: "b1o = Some b1" "rb_struct b1" "size_rb b1 = size_rb b" by blast
  from Cons.IH [OF b1(2)] 1(2) b1 show ?case by auto
qed

subsection \<open>Buffers created with a capacity up to \<open>2 ^ 30\<close>\<close>

lemma created_wf:
  assumes "rb_create al sz = Some b" "0 < sint sz" "sint sz \<le> 1073741824"
  shows "rb_wf b" "size_rb b = sz"
  using rb_create_struct [OF assms(1,2)] assms(3) by (simp_all add: rb_wf_def)

lemma conservation_upto_2_30:
  assumes "rb_create al sz = Some b0" "0 < sint sz" "sint sz \<le> 1073741824"
    and "\<forall>c \<in> set cs. call_ok c"
  shows "\<exists>b ar aw. run (Some b0) cs = Inr (Some b)
           \<and> rb_available_to_read (Some b) = Inr ar \<and> rb_available_to_write (Some b) = Inr aw
           \<and> sint ar + sint aw = sint sz - 1"
proof -
  have wf0: "rb_wf b0" and sz0: "size_rb b0 = sz" using created_wf [OF assms(1-3)] by simp_all
  obtain b where b: "run (Some b0) cs = Inr (Some b)" "rb_wf b" "size_rb b = size_rb b0"
    using run_wf [OF wf0 assms(4)] by blast
  from conservation_wf [OF b(2)] b(1,3) sz0 show ?thesis by auto
qed

lemma position_range_upto_2_30:
  assumes "rb_create al sz = Some b0" "0 < sint sz" "sint sz \<le> 1073741824"
    and "\<forall>c \<in> set cs. call_ok c"
  shows "\<exists>b. run (Some b0) cs = Inr (Some b) \<and> size_rb b = sz
           \<and> 0 \<le> sint (write_idx b) \<and> sint (write_idx b) < sint sz
           \<and> 0 \<le> sint (read_idx b) \<and> sint (read_idx b) < sint sz"
proof -
  have wf0: "rb_wf b0" and sz0: "size_rb b0 = sz" using created_wf [OF assms(1-3)] by simp_all
  obtain b where b: "run (Some b0) cs = Inr (Some b)" "rb_wf b" "size_rb b = size_rb b0"
    using run_wf [OF wf0 assms(4)] by blast
  then show ?thesis using sz0 by (auto simp: rb_wf_def rb_struct_def)
qed

lemma query_formulas_upto_2_30:
  assumes "rb_wf b"
  shows "\<exists>aw ar. rb_available_to_write (Some b) = Inr aw
            \<and> sint aw = spec_available_to_write (sint (size_rb b)) (sint (read_idx b))
                          (sint (write_idx b))
            \<and> rb_available_to_read (Some b) = Inr ar
            \<and> sint ar = spec_available_to_read (sint (size_rb b)) (sint (read_idx b))
                          (sint (write_idx b))"
proof -
  obtain ar where ar: "rb_available_to_read (Some b) = Inr ar"
    using avail_read_wf_ex [OF assms] by blast
  obtain aw where aw: "rb_available_to_write (Some b) = Inr aw"
    using avail_write_wf_ex [OF assms] by blast
  show ?thesis
    using ar aw sint_avail_read_wf [OF assms ar] sint_avail_write_wf [OF assms aw] by simp
qed

subsection \<open>The storage after a write, block by block\<close>

lemma write_storage_blocks:
  assumes "n \<le> length src" "n < C" "w < C"
  shows "spec_write_storage buf w C (take n src)
      = (if w + n \<le> C then block_copy buf w (take n src)
         else block_copy (block_copy buf w (take (C - w) src)) 0
                (take (n - (C - w)) (drop (C - w) src)))"
  using assms by (auto simp: spec_write_storage_def drop_take min_def)

subsection \<open>Unfolding the model on concrete inputs\<close>

lemmas eval_defs = rb_create_def alloc_always_def alloc_never_def size_t_of_int_def
      rb_write_to_buffer_def rb_read_from_buffer_def rb_available_to_write_def
      rb_available_to_read_def c_mod_def smod_int_alt_def and_then_def write_copy_def read_copy_def
      memcpy_def word_sless_alt word_sle_eq

section \<open>The claims\<close>

text \<open>
  C1 (as amended). Round trip on an empty buffer: for every well-formed buffer of capacity
  at most \<open>2 ^ 30\<close> whose read position equals its write position, and every byte sequence
  \<open>B\<close> of length \<open>L\<close> with \<open>0 \<le> L \<le> rb_available_to_write(buffer)\<close>, the write of \<open>B\<close>
  returns 0 and the read of \<open>L\<close> bytes that follows returns 0 and puts exactly \<open>B\<close>, in
  order, at the start of the destination (the bytes of the destination beyond \<open>L\<close> are
  kept). The write position is arbitrary, so the copy may wrap around the end of the
  storage.
\<close>

theorem roundtrip_empty_buffer:
  assumes wf: "rb_wf b" and empty: "read_idx b = write_idx b"
    and av: "rb_available_to_write (Some b) = Inr a"
    and len: "0 \<le> sint len" "sint len \<le> sint a"
    and B: "int (length B) = sint len" and dest: "sint len \<le> int (length dest)"
  shows "\<exists>b1 b2. rb_write_to_buffer (Some b) B len = Inr (0, Some b1)
           \<and> rb_read_from_buffer (Some b1) dest len = Inr (0, Some b2, B @ drop (length B) dest)"
proof (cases "len = 0")
  case True
  with B show ?thesis by (simp add: rb_write_to_buffer_def rb_read_from_buffer_def)
next
  case False
  have "(len = 0) = (sint len = sint (0 :: int32))" by (rule word_eq_iff_signed)
  with False len have pos: "0 < sint len" by simp
  from wf have st: "rb_struct b" and sz: "sint (size_rb b) \<le> 1073741824"
    and s: "0 < sint (size_rb b)" "int (length (buf_ptr b)) = sint (size_rb b)"
      "0 \<le> sint (write_idx b)" "sint (write_idx b) < sint (size_rb b)"
    by (simp_all add: rb_wf_def rb_struct_def)
  have lt: "sint len < sint (size_rb b)"
    using avail_write_range [OF av s(1)] len by simp
  let ?b1 = "spec_written b B len"
  have w: "rb_write_to_buffer (Some b) B len = Inr (0, Some ?b1)"
    using st av pos len(2) by (rule write_some_written) (use s lt sz B in simp_all)
  have st1: "rb_struct ?b1" using st pos lt by (rule rb_struct_written)
  then have wf1: "rb_wf ?b1" using sz by (simp add: rb_wf_def)
  obtain a1 where a1: "rb_available_to_read (Some ?b1) = Inr a1"
    using avail_read_wf_ex [OF wf1] by blast
  have idx: "sint (write_idx ?b1) = (sint (write_idx b) + sint len) mod sint (size_rb b)"
    using s pos by (simp add: spec_written_def sint_new_idx)
  have r1: "read_idx ?b1 = write_idx b" using empty by (simp add: spec_written_def)
  have "sint a1 = spec_available_to_read (sint (size_rb b)) (sint (write_idx b))
      ((sint (write_idx b) + sint len) mod sint (size_rb b))"
    using sint_avail_read_wf [OF wf1 a1] by (simp add: idx r1)
  then have a1v: "sint a1 = sint len"
    using s pos lt by (simp add: readable_after_write)
  have rd: "rb_read_from_buffer (Some ?b1) dest len =
     Inr (0, Some (spec_read_advanced ?b1 len),
          spec_read_dest dest (nat (sint (read_idx ?b1))) (nat (sint (size_rb ?b1)))
            (buf_ptr ?b1) (nat (sint len)))"
    using st1 a1 pos _ _ dest by (rule read_some_advanced) (use a1v r1 s lt sz in simp_all)
  have nl: "nat (sint len) = length B" using B by simp
  have "spec_read_dest dest (nat (sint (read_idx ?b1))) (nat (sint (size_rb ?b1)))
            (buf_ptr ?b1) (nat (sint len))
      = spec_read_dest dest (nat (sint (write_idx b))) (nat (sint (size_rb b)))
          (spec_write_storage (buf_ptr b) (nat (sint (write_idx b))) (nat (sint (size_rb b))) B)
          (length B)"
    by (simp add: r1 nl) (simp add: spec_written_def nl)
  also have "\<dots> = B @ drop (length B) dest"
    using s lt B dest by (intro read_after_write) auto
  finally show ?thesis using w rd by simp
qed

theorem roundtrip_empty_buffer_witness:
  "rb_wf \<lparr> size_rb = 256, buf_ptr = replicate 256 0, write_idx = 250, read_idx = 250 \<rparr>
   \<and> rb_available_to_write
        (Some \<lparr> size_rb = 256, buf_ptr = replicate 256 0, write_idx = 250, read_idx = 250 \<rparr>)
       = Inr 255
   \<and> (\<exists>b1 b2.
        rb_write_to_buffer
          (Some \<lparr> size_rb = 256, buf_ptr = replicate 256 0, write_idx = 250, read_idx = 250 \<rparr>)
          [1, 2, 3, 4, 5, 6, 7, 8, 9, 10] 10 = Inr (0, Some b1)
        \<and> rb_read_from_buffer (Some b1) [0, 0, 0, 0, 0, 0, 0, 0, 0, 0, 0, 0] 10
            = Inr (0, Some b2, [1, 2, 3, 4, 5, 6, 7, 8, 9, 10, 0, 0]))"
proof -
  let ?b = "\<lparr> size_rb = 256, buf_ptr = replicate 256 0, write_idx = 250, read_idx = 250 \<rparr>"
  have wf: "rb_wf ?b" by (simp add: rb_wf_def rb_struct_def)
  have av: "rb_available_to_write (Some ?b) = Inr 255"
    by (simp add: rb_available_to_write_def c_mod_def smod_int_alt_def)
  show ?thesis
    using roundtrip_empty_buffer [OF wf _ av, of 10 "[1, 2, 3, 4, 5, 6, 7, 8, 9, 10]" "[0, 0, 0, 0, 0, 0, 0, 0, 0, 0, 0, 0]"]
      wf av
    by simp
qed

text \<open>
  C1 as stated fails on a buffer that already holds unread bytes: the read returns the
  oldest unread bytes, not the bytes just written. A fresh buffer of capacity 256 receives
  the byte 7; 254 more bytes may be written; the byte 9 is written; the read of one
  byte yields 7.
\<close>

theorem roundtrip_counterexample:
  "rb_create alloc_always 256
     = Some \<lparr> size_rb = 256, buf_ptr = replicate 256 0, write_idx = 0, read_idx = 0 \<rparr>
   \<and> rb_write_to_buffer
        (Some \<lparr> size_rb = 256, buf_ptr = replicate 256 0, write_idx = 0, read_idx = 0 \<rparr>) [7] 1
     = Inr (0, Some \<lparr> size_rb = 256, buf_ptr = 7 # replicate 255 0, write_idx = 1, read_idx = 0 \<rparr>)
   \<and> rb_available_to_write
        (Some \<lparr> size_rb = 256, buf_ptr = 7 # replicate 255 0, write_idx = 1, read_idx = 0 \<rparr>)
     = Inr 254
   \<and> rb_write_to_buffer
        (Some \<lparr> size_rb = 256, buf_ptr = 7 # replicate 255 0, write_idx = 1, read_idx = 0 \<rparr>) [9] 1
     = Inr (0, Some \<lparr> size_rb = 256, buf_ptr = 7 # 9 # replicate 254 0, write_idx = 2, read_idx = 0 \<rparr>)
   \<and> rb_read_from_buffer
        (Some \<lparr> size_rb = 256, buf_ptr = 7 # 9 # replicate 254 0, write_idx = 2, read_idx = 0 \<rparr>) [0] 1
     = Inr (0, Some \<lparr> size_rb = 256, buf_ptr = 7 # 9 # replicate 254 0, write_idx = 2, read_idx = 1 \<rparr>,
            [7])"
  by (simp add: rb_create_def alloc_always_def size_t_of_int_def
      rb_write_to_buffer_def rb_read_from_buffer_def rb_available_to_write_def
      rb_available_to_read_def c_mod_def smod_int_alt_def and_then_def write_copy_def read_copy_def
      memcpy_def word_sless_alt word_sle_eq)

text \<open>
  C2. Conservation: after any sequence of writes and reads on a buffer created with
  capacity \<open>C\<close>, the two queries add up to \<open>C - 1\<close>. For capacities up to \<open>2 ^ 30\<close> this
  is lemma \<open>conservation_upto_2_30\<close>. It fails for a larger capacity: in a buffer created
  with capacity 2147483392, after one write of 256 bytes, the sum \<open>size + write_idx\<close>
  in \<^verbatim>\<open>rb_available_to_read\<close> leaves the range of \<^verbatim>\<open>int\<close>; the query returns -256 while
  \<^verbatim>\<open>rb_available_to_write\<close> returns 2147483135, and the two do not add up to 2147483391.
\<close>

theorem conservation_large_capacity:
  "rb_create alloc_always 2147483392
     = Some \<lparr> size_rb = 2147483392, buf_ptr = replicate 2147483392 0, write_idx = 0, read_idx = 0 \<rparr>
   \<and> rb_write_to_buffer
        (Some \<lparr> size_rb = 2147483392, buf_ptr = replicate 2147483392 0, write_idx = 0, read_idx = 0 \<rparr>)
        (replicate 256 1) 256
     = Inr (0, Some \<lparr> size_rb = 2147483392, buf_ptr = replicate 256 1 @ replicate 2147483136 0,
                        write_idx = 256, read_idx = 0 \<rparr>)
   \<and> rb_available_to_read
        (Some \<lparr> size_rb = 2147483392, buf_ptr = replicate 256 1 @ replicate 2147483136 0,
                write_idx = 256, read_idx = 0 \<rparr>)
     = Inr (- 256)
   \<and> rb_available_to_write
        (Some \<lparr> size_rb = 2147483392, buf_ptr = replicate 256 1 @ replicate 2147483136 0,
                write_idx = 256, read_idx = 0 \<rparr>)
     = Inr 2147483135
   \<and> sint (- 256 :: int32) + sint (2147483135 :: int32) \<noteq> sint (2147483392 :: int32) - 1"
  by (simp add: eval_defs)

text \<open>
  C3 (as amended). Validation at creation: a capacity that is not a multiple of 256 is
  rejected (no buffer is returned); for a capacity that is a positive multiple of 256,
  creation succeeds if the allocation of the control block and the allocation of the
  storage both succeed, and the fresh buffer is empty: the storage is zeroed, both
  positions are 0, \<^verbatim>\<open>rb_available_to_read\<close> returns 0 and \<^verbatim>\<open>rb_available_to_write\<close>
  returns the capacity minus 1; when either allocation fails, no buffer is returned.
\<close>

theorem rb_create_validation:
  "(sint sz mod 256 \<noteq> 0 \<longrightarrow> rb_create al sz = None)
   \<and> (0 < sint sz \<and> sint sz mod 256 = 0 \<and> malloc_ok al \<and> calloc_ok al (nat (sint sz)) \<longrightarrow>
        rb_create al sz = Some \<lparr> size_rb = sz, buf_ptr = replicate (nat (sint sz)) 0,
                                 write_idx = 0, read_idx = 0 \<rparr>
        \<and> rb_available_to_read (rb_create al sz) = Inr 0
        \<and> rb_available_to_write (rb_create al sz) = Inr (sz - 1))
   \<and> (\<not> malloc_ok al \<longrightarrow> rb_create al sz = None)
   \<and> (\<not> calloc_ok al (size_t_of_int sz) \<longrightarrow> rb_create al sz = None)"
proof (intro conjI impI)
  assume "sint sz mod 256 \<noteq> 0"
  then show "rb_create al sz = None"
    by (simp add: rb_create_def low_byte_zero_iff)
next
  assume a: "0 < sint sz \<and> sint sz mod 256 = 0 \<and> malloc_ok al \<and> calloc_ok al (nat (sint sz))"
  then have n: "size_t_of_int sz = nat (sint sz)" by (simp add: size_t_of_int_nonneg)
  from a show c: "rb_create al sz = Some \<lparr> size_rb = sz, buf_ptr = replicate (nat (sint sz)) 0,
                                 write_idx = 0, read_idx = 0 \<rparr>"
    by (simp add: rb_create_def low_byte_zero_iff n)
  from a show "rb_available_to_read (rb_create al sz) = Inr 0"
    by (simp add: c fresh_queries)
  from a show "rb_available_to_write (rb_create al sz) = Inr (sz - 1)"
    by (simp add: c fresh_queries)
next
  assume "\<not> malloc_ok al"
  then show "rb_create al sz = None" by (simp add: rb_create_def)
next
  assume "\<not> calloc_ok al (size_t_of_int sz)"
  then show "rb_create al sz = None" by (simp add: rb_create_def)
qed

theorem rb_create_validation_witness:
  "sint (100 :: int32) mod 256 \<noteq> 0 \<and> rb_create alloc_always 100 = None
   \<and> 0 < sint (512 :: int32) \<and> sint (512 :: int32) mod 256 = 0
   \<and> malloc_ok alloc_always \<and> calloc_ok alloc_always (nat (sint (512 :: int32)))
   \<and> rb_create alloc_always 512
        = Some \<lparr> size_rb = 512, buf_ptr = replicate 512 0, write_idx = 0, read_idx = 0 \<rparr>
   \<and> rb_available_to_read (rb_create alloc_always 512) = Inr 0
   \<and> rb_available_to_write (rb_create alloc_always 512) = Inr 511
   \<and> \<not> malloc_ok alloc_never \<and> \<not> calloc_ok alloc_never (size_t_of_int 512)
   \<and> rb_create alloc_never 512 = None"
  using rb_create_validation [of 100 alloc_always] rb_create_validation [of 512 alloc_always]
    rb_create_validation [of 512 alloc_never]
  by (auto simp: alloc_always_def alloc_never_def)

text \<open>
  C3 as stated fails twice: the capacity 0 is not a positive multiple of 256, yet the
  test \<^verbatim>\<open>size & 0xff\<close> lets it pass and a buffer of capacity 0 is returned when the
  allocator serves the empty request; and the capacity 256 is a positive multiple of 256,
  yet no buffer is returned when the allocator has no memory.
\<close>

theorem rb_create_counterexample:
  "\<not> 0 < sint (0 :: int32)
   \<and> rb_create alloc_always 0
       = Some \<lparr> size_rb = 0, buf_ptr = [], write_idx = 0, read_idx = 0 \<rparr>
   \<and> 0 < sint (256 :: int32) \<and> sint (256 :: int32) mod 256 = 0
   \<and> rb_create alloc_never 256 = None"
  by (simp add: rb_create_def alloc_always_def alloc_never_def size_t_of_int_def)

text \<open>
  C4. The queries compute \<open>(capacity + read_position - write_position - 1) mod capacity\<close>
  and \<open>(capacity + write_position - read_position) mod capacity\<close>. For capacities up to
  \<open>2 ^ 30\<close> this is lemma \<open>query_formulas_upto_2_30\<close>. For a larger capacity the sums
  are formed in \<^verbatim>\<open>int\<close> and leave its range: with capacity 2147483392, write position 256
  and read position 0, \<^verbatim>\<open>rb_available_to_read\<close> returns -256 where the formula gives 256;
  with write position 0 and read position 300, \<^verbatim>\<open>rb_available_to_write\<close> returns -213
  where the formula gives 299. For a null pointer both queries return 0.
\<close>

theorem query_formula_large_capacity:
  "rb_write_to_buffer
        (Some \<lparr> size_rb = 2147483392, buf_ptr = replicate 2147483392 0, write_idx = 0, read_idx = 0 \<rparr>)
        (replicate 256 1) 256
     = Inr (0, Some \<lparr> size_rb = 2147483392, buf_ptr = replicate 256 1 @ replicate 2147483136 0,
                        write_idx = 256, read_idx = 0 \<rparr>)
   \<and> rb_available_to_read
        (Some \<lparr> size_rb = 2147483392, buf_ptr = replicate 256 1 @ replicate 2147483136 0,
                write_idx = 256, read_idx = 0 \<rparr>)
     = Inr (- 256)
   \<and> spec_available_to_read 2147483392 0 256 = 256
   \<and> rb_available_to_write
        (Some \<lparr> size_rb = 2147483392, buf_ptr = replicate 2147483392 0,
                write_idx = 0, read_idx = 300 \<rparr>)
     = Inr (- 213)
   \<and> spec_available_to_write 2147483392 300 0 = 299
   \<and> rb_available_to_write None = Inr 0 \<and> rb_available_to_read None = Inr 0"
  by (simp add: eval_defs spec_available_to_read_def spec_available_to_write_def)

text \<open>
  C5. Failure conditions and atomicity: for every call with a length other than 0, the
  write returns -1 with the control block and its storage unchanged exactly when the
  buffer pointer is null, the length is negative, or the length exceeds the result of
  \<^verbatim>\<open>rb_available_to_write\<close>; the read returns -1 with the control block and the
  destination unchanged exactly when the pointer is null, the length is negative, or the
  length exceeds the result of \<^verbatim>\<open>rb_available_to_read\<close>. No other nonzero value is
  returned, and a call that returns nonzero has changed nothing.
\<close>

theorem failure_conditions_atomic:
  "len \<noteq> 0 \<longrightarrow>
     ((rb_write_to_buffer buffer src len = Inr (- 1, buffer))
        = (buffer = None \<or> len <s 0
           \<or> (\<exists>a. rb_available_to_write buffer = Inr a \<and> a <s len)))
   \<and> (\<forall>ret buffer'. rb_write_to_buffer buffer src len = Inr (ret, buffer') \<and> ret \<noteq> 0
          \<longrightarrow> ret = - 1 \<and> buffer' = buffer)
   \<and> ((rb_read_from_buffer buffer dest len = Inr (- 1, buffer, dest))
        = (buffer = None \<or> len <s 0
           \<or> (\<exists>a. rb_available_to_read buffer = Inr a \<and> a <s len)))
   \<and> (\<forall>ret buffer' dest'.
          rb_read_from_buffer buffer dest len = Inr (ret, buffer', dest') \<and> ret \<noteq> 0
          \<longrightarrow> ret = - 1 \<and> buffer' = buffer \<and> dest' = dest)"
proof (intro impI conjI allI)
  assume ne: "len \<noteq> 0"
  show "(rb_write_to_buffer buffer src len = Inr (- 1, buffer))
        = (buffer = None \<or> len <s 0
           \<or> (\<exists>a. rb_available_to_write buffer = Inr a \<and> a <s len))"
    using ne
    by (auto simp: rb_write_to_buffer_def and_then_def Let_def
        split: option.splits sum.splits if_splits)
  show "(rb_read_from_buffer buffer dest len = Inr (- 1, buffer, dest))
        = (buffer = None \<or> len <s 0
           \<or> (\<exists>a. rb_available_to_read buffer = Inr a \<and> a <s len))"
    using ne
    by (auto simp: rb_read_from_buffer_def and_then_def Let_def
        split: option.splits sum.splits if_splits)
next
  fix ret buffer'
  assume "len \<noteq> 0" "rb_write_to_buffer buffer src len = Inr (ret, buffer') \<and> ret \<noteq> 0"
  then show "ret = - 1" "buffer' = buffer"
    by (auto simp: rb_write_to_buffer_def and_then_def Let_def
        split: option.splits sum.splits if_splits)
next
  fix ret buffer' dest'
  assume "len \<noteq> 0"
    "rb_read_from_buffer buffer dest len = Inr (ret, buffer', dest') \<and> ret \<noteq> 0"
  then show "ret = - 1" "buffer' = buffer" "dest' = dest"
    by (auto simp: rb_read_from_buffer_def and_then_def Let_def
        split: option.splits sum.splits if_splits)
qed

theorem failure_conditions_atomic_witness:
  "(300 :: int32) \<noteq> 0
   \<and> rb_available_to_write
        (Some \<lparr> size_rb = 256, buf_ptr = replicate 256 0, write_idx = 0, read_idx = 0 \<rparr>)
       = Inr 255
   \<and> (255 :: int32) <s 300
   \<and> rb_write_to_buffer
        (Some \<lparr> size_rb = 256, buf_ptr = replicate 256 0, write_idx = 0, read_idx = 0 \<rparr>) [1] 300
       = Inr (- 1, Some \<lparr> size_rb = 256, buf_ptr = replicate 256 0, write_idx = 0, read_idx = 0 \<rparr>)
   \<and> rb_available_to_read
        (Some \<lparr> size_rb = 256, buf_ptr = replicate 256 0, write_idx = 0, read_idx = 0 \<rparr>)
       = Inr 0
   \<and> (0 :: int32) <s 300
   \<and> rb_read_from_buffer
        (Some \<lparr> size_rb = 256, buf_ptr = replicate 256 0, write_idx = 0, read_idx = 0 \<rparr>) [0] 300
       = Inr (- 1, Some \<lparr> size_rb = 256, buf_ptr = replicate 256 0, write_idx = 0, read_idx = 0 \<rparr>,
              [0])"
proof -
  let ?b = "\<lparr> size_rb = 256, buf_ptr = replicate 256 0, write_idx = 0, read_idx = 0 \<rparr>"
  have ne: "(300 :: int32) \<noteq> 0" by simp
  have aw: "rb_available_to_write (Some ?b) = Inr 255" "(255 :: int32) <s 300"
    by (simp_all add: rb_available_to_write_def c_mod_def smod_int_alt_def word_sless_alt)
  have ar: "rb_available_to_read (Some ?b) = Inr 0" "(0 :: int32) <s 300"
    by (simp_all add: rb_available_to_read_def c_mod_def smod_int_alt_def word_sless_alt)
  have "rb_write_to_buffer (Some ?b) [1] 300 = Inr (- 1, Some ?b)"
    and "rb_read_from_buffer (Some ?b) [0] 300 = Inr (- 1, Some ?b, [0])"
    using failure_conditions_atomic [of 300 "Some ?b" "[1]" "[0]"] ne aw ar by blast+
  then show ?thesis using ne aw ar by simp
qed

text \<open>
  C6. The wrap-around copy. On every well-formed buffer of capacity \<open>C\<close> up to \<open>2 ^ 30\<close>, a
  write of \<open>L > 0\<close> bytes at write position \<open>w\<close> that passes the checks (\<open>L\<close> at most the
  result of \<^verbatim>\<open>rb_available_to_write\<close>, the source holding \<open>L\<close> bytes) returns 0 and has
  copied the first \<open>L\<close> bytes of the source as one block at offset \<open>w\<close> if \<open>w + L \<le> C\<close>,
  and otherwise as two blocks, the first \<open>C - w\<close> bytes at offset \<open>w\<close> (the tail of the
  storage) and the remaining \<open>L - (C - w)\<close> bytes at offset 0; afterwards the write
  position is \<open>(w + L) mod C\<close>. Symmetrically a read that passes the checks returns 0 and
  has copied \<open>L\<close> bytes from offset \<open>r\<close> of the storage, or \<open>C - r\<close> bytes from offset \<open>r\<close>
  followed by \<open>L - (C - r)\<close> bytes from offset 0, to the start of the destination;
  afterwards the read position is \<open>(r + L) mod C\<close>.
  It fails for a larger capacity: in the buffer of capacity 2147483392 with both
  positions 257 (reached as under C8), 2147483391 bytes may be written and
  \<open>w + L = 2147483648 > C\<close>, so the copy has to be split; but the sum \<open>write_idx + len\<close>
  wraps to the least \<^verbatim>\<open>int\<close>, the test \<^verbatim>\<open>write_idx + len <= size\<close> holds, and the code
  makes the single \<^verbatim>\<open>memcpy\<close> of the first branch, which runs 256 bytes past the end of
  the storage; the position it then stores is -256, where \<open>(w + L) mod C\<close> is 256.
\<close>

theorem wraparound_copy:
  "(rb_wf b \<and> rb_available_to_write (Some b) = Inr a \<and> 0 < sint len \<and> sint len \<le> sint a
      \<and> sint len \<le> int (length src) \<longrightarrow>
      (\<exists>b'. rb_write_to_buffer (Some b) src len = Inr (0, Some b')
         \<and> buf_ptr b' =
             (if write_position b + nat (sint len) \<le> capacity b
              then block_copy (buf_ptr b) (write_position b) (take (nat (sint len)) src)
              else block_copy
                     (block_copy (buf_ptr b) (write_position b)
                        (take (capacity b - write_position b) src))
                     0
                     (take (nat (sint len) - (capacity b - write_position b))
                        (drop (capacity b - write_position b) src)))
         \<and> write_position b' = (write_position b + nat (sint len)) mod capacity b
         \<and> 0 \<le> sint (write_idx b')
         \<and> read_idx b' = read_idx b \<and> size_rb b' = size_rb b))
   \<and> (rb_wf b \<and> rb_available_to_read (Some b) = Inr a \<and> 0 < sint len \<and> sint len \<le> sint a
      \<and> sint len \<le> int (length dest) \<longrightarrow>
      (\<exists>b'. rb_read_from_buffer (Some b) dest len =
             Inr (0, Some b',
               if read_position b + nat (sint len) \<le> capacity b
               then block_copy dest 0 (take (nat (sint len)) (drop (read_position b) (buf_ptr b)))
               else block_copy
                      (block_copy dest 0
                         (take (capacity b - read_position b) (drop (read_position b) (buf_ptr b))))
                      (capacity b - read_position b)
                      (take (nat (sint len) - (capacity b - read_position b)) (buf_ptr b)))
         \<and> read_position b' = (read_position b + nat (sint len)) mod capacity b
         \<and> 0 \<le> sint (read_idx b')
         \<and> buf_ptr b' = buf_ptr b \<and> write_idx b' = write_idx b \<and> size_rb b' = size_rb b))
   \<and> rb_struct \<lparr> size_rb = 2147483392,
          buf_ptr = replicate 255 1 @ 1 # 1 # replicate 2147483135 0,
          write_idx = 257, read_idx = 257 \<rparr>
   \<and> rb_available_to_write
        (Some \<lparr> size_rb = 2147483392,
                buf_ptr = replicate 255 1 @ 1 # 1 # replicate 2147483135 0,
                write_idx = 257, read_idx = 257 \<rparr>)
       = Inr 2147483391
   \<and> (2147483392 :: int) < 257 + 2147483391
   \<and> (257 :: int32) + 2147483391 \<le>s 2147483392
   \<and> write_copy
        \<lparr> size_rb = 2147483392,
          buf_ptr = replicate 255 1 @ 1 # 1 # replicate 2147483135 0,
          write_idx = 257, read_idx = 257 \<rparr>
        (replicate 2147483391 1) 2147483391
       = memcpy (replicate 255 1 @ 1 # 1 # replicate 2147483135 0) 257
           (replicate 2147483391 1) 0 2147483391
   \<and> memcpy (replicate 255 1 @ 1 # 1 # replicate 2147483135 0) 257
           (replicate 2147483391 1) 0 2147483391
       = Inl Out_Of_Bounds
   \<and> rb_write_to_buffer
        (Some \<lparr> size_rb = 2147483392,
                buf_ptr = replicate 255 1 @ 1 # 1 # replicate 2147483135 0,
                write_idx = 257, read_idx = 257 \<rparr>)
        (replicate 2147483391 1) 2147483391
       = Inl Out_Of_Bounds
   \<and> c_mod (257 + 2147483391) 2147483392 = Inr (- 256)
   \<and> (257 + 2147483391 :: int) mod 2147483392 = 256"
proof (intro conjI impI)
  assume h: "rb_wf b \<and> rb_available_to_write (Some b) = Inr a \<and> 0 < sint len
      \<and> sint len \<le> sint a \<and> sint len \<le> int (length src)"
  then have wf: "rb_wf b" and av: "rb_available_to_write (Some b) = Inr a"
    and L: "0 < sint len" "sint len \<le> sint a" and src: "sint len \<le> int (length src)"
    by simp_all
  from wf have st: "rb_struct b" and sz: "sint (size_rb b) \<le> 1073741824"
    and s: "0 < sint (size_rb b)" "0 \<le> sint (write_idx b)"
      "sint (write_idx b) < sint (size_rb b)"
    by (simp_all add: rb_wf_def rb_struct_def)
  have lt: "sint len < sint (size_rb b)" using avail_write_range [OF av s(1)] L by simp
  have w: "rb_write_to_buffer (Some b) src len = Inr (0, Some (spec_written b src len))"
    using st av L _ src by (rule write_some_written) (use s lt sz in simp)
  have pos: "nat (sint (word_of_int ((sint (write_idx b) + sint len) mod sint (size_rb b)) :: int32))
      = (nat (sint (write_idx b)) + nat (sint len)) mod nat (sint (size_rb b))"
    using s L(1) by (intro nat_new_position) simp_all
  have nn: "0 \<le> sint (word_of_int ((sint (write_idx b) + sint len) mod sint (size_rb b)) :: int32)"
    using s L(1) by (simp add: sint_new_idx)
  have blocks: "spec_write_storage (buf_ptr b) (nat (sint (write_idx b)))
           (nat (sint (size_rb b))) (take (nat (sint len)) src)
      = (if nat (sint (write_idx b)) + nat (sint len) \<le> nat (sint (size_rb b))
         then block_copy (buf_ptr b) (nat (sint (write_idx b))) (take (nat (sint len)) src)
         else block_copy
                (block_copy (buf_ptr b) (nat (sint (write_idx b)))
                   (take (nat (sint (size_rb b)) - nat (sint (write_idx b))) src))
                0
                (take (nat (sint len) - (nat (sint (size_rb b)) - nat (sint (write_idx b))))
                   (drop (nat (sint (size_rb b)) - nat (sint (write_idx b))) src)))"
    using L(1) src lt s by (intro write_storage_blocks) simp_all
  show "\<exists>b'. rb_write_to_buffer (Some b) src len = Inr (0, Some b')
         \<and> buf_ptr b' =
             (if write_position b + nat (sint len) \<le> capacity b
              then block_copy (buf_ptr b) (write_position b) (take (nat (sint len)) src)
              else block_copy
                     (block_copy (buf_ptr b) (write_position b)
                        (take (capacity b - write_position b) src))
                     0
                     (take (nat (sint len) - (capacity b - write_position b))
                        (drop (capacity b - write_position b) src)))
         \<and> write_position b' = (write_position b + nat (sint len)) mod capacity b
         \<and> 0 \<le> sint (write_idx b')
         \<and> read_idx b' = read_idx b \<and> size_rb b' = size_rb b"
    using w pos nn blocks
    by (simp add: spec_written_def write_position_def capacity_def)
next
  assume h: "rb_wf b \<and> rb_available_to_read (Some b) = Inr a \<and> 0 < sint len
      \<and> sint len \<le> sint a \<and> sint len \<le> int (length dest)"
  then have wf: "rb_wf b" and av: "rb_available_to_read (Some b) = Inr a"
    and L: "0 < sint len" "sint len \<le> sint a" and dst: "sint len \<le> int (length dest)"
    by simp_all
  from wf have st: "rb_struct b" and sz: "sint (size_rb b) \<le> 1073741824"
    and s: "0 < sint (size_rb b)" "0 \<le> sint (read_idx b)"
      "sint (read_idx b) < sint (size_rb b)"
    by (simp_all add: rb_wf_def rb_struct_def)
  have lt: "sint len < sint (size_rb b)" using avail_read_range [OF av s(1)] L by simp
  have r: "rb_read_from_buffer (Some b) dest len =
     Inr (0, Some (spec_read_advanced b len),
          spec_read_dest dest (nat (sint (read_idx b))) (nat (sint (size_rb b)))
            (buf_ptr b) (nat (sint len)))"
    using st av L _ dst by (rule read_some_advanced) (use s lt sz in simp)
  have pos: "nat (sint (word_of_int ((sint (read_idx b) + sint len) mod sint (size_rb b)) :: int32))
      = (nat (sint (read_idx b)) + nat (sint len)) mod nat (sint (size_rb b))"
    using s L(1) by (intro nat_new_position) simp_all
  have nn: "0 \<le> sint (word_of_int ((sint (read_idx b) + sint len) mod sint (size_rb b)) :: int32)"
    using s L(1) by (simp add: sint_new_idx)
  show "\<exists>b'. rb_read_from_buffer (Some b) dest len =
             Inr (0, Some b',
               if read_position b + nat (sint len) \<le> capacity b
               then block_copy dest 0 (take (nat (sint len)) (drop (read_position b) (buf_ptr b)))
               else block_copy
                      (block_copy dest 0
                         (take (capacity b - read_position b) (drop (read_position b) (buf_ptr b))))
                      (capacity b - read_position b)
                      (take (nat (sint len) - (capacity b - read_position b)) (buf_ptr b)))
         \<and> read_position b' = (read_position b + nat (sint len)) mod capacity b
         \<and> 0 \<le> sint (read_idx b')
         \<and> buf_ptr b' = buf_ptr b \<and> write_idx b' = write_idx b \<and> size_rb b' = size_rb b"
    using r pos nn
    by (simp add: spec_read_advanced_def spec_read_dest_def read_position_def capacity_def)
qed (simp_all add: eval_defs rb_struct_def)

theorem wraparound_copy_witness:
  "rb_wf \<lparr> size_rb = 256, buf_ptr = replicate 256 0, write_idx = 250, read_idx = 250 \<rparr>
   \<and> rb_available_to_write
        (Some \<lparr> size_rb = 256, buf_ptr = replicate 256 0, write_idx = 250, read_idx = 250 \<rparr>)
       = Inr 255
   \<and> 0 < sint (10 :: int32) \<and> sint (10 :: int32) \<le> sint (255 :: int32)
   \<and> sint (10 :: int32) \<le> int (length [1, 2, 3, 4, 5, 6, 7, 8, 9, 10 :: byte])
   \<and> (\<exists>b'. rb_write_to_buffer
          (Some \<lparr> size_rb = 256, buf_ptr = replicate 256 0, write_idx = 250, read_idx = 250 \<rparr>)
          [1, 2, 3, 4, 5, 6, 7, 8, 9, 10] 10 = Inr (0, Some b')
        \<and> buf_ptr b'
            = block_copy (block_copy (replicate 256 0) 250 [1, 2, 3, 4, 5, 6]) 0 [7, 8, 9, 10]
        \<and> write_position b' = 4 \<and> 0 \<le> sint (write_idx b')
        \<and> read_idx b' = 250 \<and> size_rb b' = 256)
   \<and> rb_wf \<lparr> size_rb = 256,
          buf_ptr = 7 # 8 # 9 # 10 # replicate 246 0 @ [1, 2, 3, 4, 5, 6],
          write_idx = 4, read_idx = 250 \<rparr>
   \<and> rb_available_to_read
        (Some \<lparr> size_rb = 256,
                buf_ptr = 7 # 8 # 9 # 10 # replicate 246 0 @ [1, 2, 3, 4, 5, 6],
                write_idx = 4, read_idx = 250 \<rparr>)
       = Inr 10
   \<and> sint (10 :: int32) \<le> int (length [0, 0, 0, 0, 0, 0, 0, 0, 0, 0, 0, 0 :: byte])
   \<and> (\<exists>b'. rb_read_from_buffer
          (Some \<lparr> size_rb = 256,
                  buf_ptr = 7 # 8 # 9 # 10 # replicate 246 0 @ [1, 2, 3, 4, 5, 6],
                  write_idx = 4, read_idx = 250 \<rparr>)
          [0, 0, 0, 0, 0, 0, 0, 0, 0, 0, 0, 0] 10
          = Inr (0, Some b',
               block_copy (block_copy [0, 0, 0, 0, 0, 0, 0, 0, 0, 0, 0, 0] 0 [1, 2, 3, 4, 5, 6]) 6
                 [7, 8, 9, 10])
        \<and> read_position b' = 4 \<and> 0 \<le> sint (read_idx b')
        \<and> buf_ptr b' = 7 # 8 # 9 # 10 # replicate 246 0 @ [1, 2, 3, 4, 5, 6]
        \<and> write_idx b' = 4 \<and> size_rb b' = 256)"
proof -
  let ?b = "\<lparr> size_rb = 256, buf_ptr = replicate 256 0, write_idx = 250, read_idx = 250 \<rparr>"
  let ?w = "\<lparr> size_rb = 256, buf_ptr = 7 # 8 # 9 # 10 # replicate 246 0 @ [1, 2, 3, 4, 5, 6],
              write_idx = 4, read_idx = 250 \<rparr>"
  have wf: "rb_wf ?b" by (simp add: rb_wf_def rb_struct_def)
  have wf': "rb_wf ?w" by (simp add: rb_wf_def rb_struct_def)
  have aw: "rb_available_to_write (Some ?b) = Inr 255"
    by (simp add: rb_available_to_write_def c_mod_def smod_int_alt_def)
  have ar: "rb_available_to_read (Some ?w) = Inr 10"
    by (simp add: rb_available_to_read_def c_mod_def smod_int_alt_def)
  have w: "\<exists>b'. rb_write_to_buffer (Some ?b) [1, 2, 3, 4, 5, 6, 7, 8, 9, 10] 10 = Inr (0, Some b')
        \<and> buf_ptr b'
            = block_copy (block_copy (replicate 256 0) 250 [1, 2, 3, 4, 5, 6]) 0 [7, 8, 9, 10]
        \<and> write_position b' = 4 \<and> 0 \<le> sint (write_idx b')
        \<and> read_idx b' = 250 \<and> size_rb b' = 256"
    using wraparound_copy [of ?b 255 10 "[1, 2, 3, 4, 5, 6, 7, 8, 9, 10]"] wf aw
    by (simp add: write_position_def capacity_def)
  have r: "\<exists>b'. rb_read_from_buffer (Some ?w) [0, 0, 0, 0, 0, 0, 0, 0, 0, 0, 0, 0] 10
          = Inr (0, Some b',
               block_copy (block_copy [0, 0, 0, 0, 0, 0, 0, 0, 0, 0, 0, 0] 0 [1, 2, 3, 4, 5, 6]) 6
                 [7, 8, 9, 10])
        \<and> read_position b' = 4 \<and> 0 \<le> sint (read_idx b')
        \<and> buf_ptr b' = 7 # 8 # 9 # 10 # replicate 246 0 @ [1, 2, 3, 4, 5, 6]
        \<and> write_idx b' = 4 \<and> size_rb b' = 256"
    using wraparound_copy [of ?w 10 10 _ "[0, 0, 0, 0, 0, 0, 0, 0, 0, 0, 0, 0]"] wf' ar
    by (simp add: read_position_def capacity_def)
  show ?thesis using wf wf' aw ar w r by simp
qed

text \<open>
  C7. Zero-length no-op: for every buffer pointer (null or not), a write and a read of
  length 0 return 0 at once and leave the control block, its storage and the
  destination as they were; so neither query changes its result.
\<close>

theorem zero_length_noop:
  "rb_write_to_buffer buffer src 0 = Inr (0, buffer)
   \<and> rb_read_from_buffer buffer dest 0 = Inr (0, buffer, dest)"
  by (simp add: rb_write_to_buffer_def rb_read_from_buffer_def)

text \<open>
  C8. Position range: after creation and after every write and read, both positions are
  in \<open>[0, C)\<close>. For capacities up to \<open>2 ^ 30\<close> this is lemma \<open>position_range_upto_2_30\<close>.
  It fails for a larger capacity: a buffer created with capacity 2147483392 reaches, by
  a write of 255 bytes, a read of 255 bytes, a write of 2 bytes and a read of 2 bytes,
  the empty state with both positions 257; 2147483391 bytes may be written; in that
  write the sum \<open>write_idx + len\<close> is \<open>2 ^ 31\<close> and wraps to the least \<^verbatim>\<open>int\<close>, so the test
  \<^verbatim>\<open>write_idx + len <= size\<close> holds and the single \<^verbatim>\<open>memcpy\<close> runs 256 bytes past the end
  of the storage; the position that the code then stores is \<^verbatim>\<open>(write_idx + len) % size\<close>,
  which is -256. (At every capacity a call that returns in the model keeps the
  positions in range, lemma \<open>run_struct\<close>: the range is lost only together with the
  copy out of bounds.)
\<close>

theorem position_range_large_capacity:
  "rb_create alloc_always 2147483392
     = Some \<lparr> size_rb = 2147483392, buf_ptr = replicate 2147483392 0, write_idx = 0, read_idx = 0 \<rparr>
   \<and> run (Some \<lparr> size_rb = 2147483392, buf_ptr = replicate 2147483392 0, write_idx = 0, read_idx = 0 \<rparr>)
        [Write_Call (replicate 255 1) 255, Read_Call (replicate 255 0) 255,
         Write_Call [1, 1] 2, Read_Call [0, 0] 2]
     = Inr (Some \<lparr> size_rb = 2147483392,
                     buf_ptr = replicate 255 1 @ 1 # 1 # replicate 2147483135 0,
                     write_idx = 257, read_idx = 257 \<rparr>)
   \<and> rb_available_to_write
        (Some \<lparr> size_rb = 2147483392,
                buf_ptr = replicate 255 1 @ 1 # 1 # replicate 2147483135 0,
                write_idx = 257, read_idx = 257 \<rparr>)
     = Inr 2147483391
   \<and> rb_write_to_buffer
        (Some \<lparr> size_rb = 2147483392,
                buf_ptr = replicate 255 1 @ 1 # 1 # replicate 2147483135 0,
                write_idx = 257, read_idx = 257 \<rparr>)
        (replicate 2147483391 1) 2147483391
     = Inl Out_Of_Bounds
   \<and> c_mod (257 + 2147483391) 2147483392 = Inr (- 256)
   \<and> sint (- 256 :: int32) < 0"
  by (simp add: eval_defs)

text \<open>
  C10. For a null buffer pointer a write and a read of length 0 return 0 (success),
  because the test of the length comes before the test of the pointer; with any other
  length they return -1.
\<close>

theorem null_buffer_zero_length:
  "rb_write_to_buffer None src 0 = Inr (0, None)
   \<and> rb_read_from_buffer None dest 0 = Inr (0, None, dest)
   \<and> (len \<noteq> 0 \<longrightarrow> rb_write_to_buffer None src len = Inr (- 1, None)
                  \<and> rb_read_from_buffer None dest len = Inr (- 1, None, dest))"
  by (simp add: rb_write_to_buffer_def rb_read_from_buffer_def)

theorem null_buffer_zero_length_witness:
  "rb_write_to_buffer None [1, 2] 0 = Inr (0, None)
   \<and> rb_read_from_buffer None [0, 0] 0 = Inr (0, None, [0, 0])
   \<and> (5 :: int32) \<noteq> 0
   \<and> rb_write_to_buffer None [1, 2] 5 = Inr (- 1, None)
   \<and> rb_read_from_buffer None [0, 0] 5 = Inr (- 1, None, [0, 0])"
  using null_buffer_zero_length [of "[1, 2]" "[0, 0]" 5] by simp

end
